theory Spec2Isabelle
  imports Complex_Main
begin

section \<open>Numeric values\<close>

text \<open>
  The arrays of \<^verbatim>\<open>parcorr_wls.py\<close> hold IEEE doubles. The model keeps the
  special values the code tests for (\<^verbatim>\<open>np.isnan\<close>) or can produce
  (\<^verbatim>\<open>np.reciprocal(0.)\<close>), and computes exactly on finite values: a finite
  double is a real number, without rounding or overflow, and there is one zero.
\<close>

datatype fl = Fin real | PInf | NInf | NaN

fun fl_add :: "fl \<Rightarrow> fl \<Rightarrow> fl" where
  "fl_add NaN _ = NaN"
| "fl_add _ NaN = NaN"
| "fl_add (Fin a) (Fin b) = Fin (a + b)"
| "fl_add PInf NInf = NaN"
| "fl_add NInf PInf = NaN"
| "fl_add PInf _ = PInf"
| "fl_add _ PInf = PInf"
| "fl_add NInf _ = NInf"
| "fl_add _ NInf = NInf"

fun fl_neg :: "fl \<Rightarrow> fl" where
  "fl_neg (Fin a) = Fin (- a)"
| "fl_neg PInf = NInf"
| "fl_neg NInf = PInf"
| "fl_neg NaN = NaN"

definition fl_sub :: "fl \<Rightarrow> fl \<Rightarrow> fl" where
  "fl_sub x y = fl_add x (fl_neg y)"

text \<open>The sign of a value that is not NaN: \<open>-1\<close>, \<open>0\<close> or \<open>1\<close>.\<close>

fun fl_sgn :: "fl \<Rightarrow> int" where
  "fl_sgn (Fin a) = (if a < 0 then - 1 else if a = 0 then 0 else 1)"
| "fl_sgn PInf = 1"
| "fl_sgn NInf = - 1"
| "fl_sgn NaN = 0"

definition inf_of_sign :: "int \<Rightarrow> fl" where
  "inf_of_sign s = (if s = 0 then NaN else if s < 0 then NInf else PInf)"

fun fl_mul :: "fl \<Rightarrow> fl \<Rightarrow> fl" where
  "fl_mul NaN _ = NaN"
| "fl_mul _ NaN = NaN"
| "fl_mul (Fin a) (Fin b) = Fin (a * b)"
| "fl_mul x y = inf_of_sign (fl_sgn x * fl_sgn y)"

text \<open>
  Division of doubles: a finite nonzero value over zero is an infinity, zero over zero
  and infinity over infinity are NaN, a finite value over an infinity is zero.
\<close>

fun fl_div :: "fl \<Rightarrow> fl \<Rightarrow> fl" where
  "fl_div NaN _ = NaN"
| "fl_div _ NaN = NaN"
| "fl_div (Fin a) (Fin b) = (if b = 0 then inf_of_sign (fl_sgn (Fin a)) else Fin (a / b))"
| "fl_div (Fin a) _ = Fin 0"
| "fl_div PInf (Fin b) = (if b < 0 then NInf else PInf)"
| "fl_div NInf (Fin b) = (if b < 0 then PInf else NInf)"
| "fl_div _ _ = NaN"

definition reciprocal :: "fl \<Rightarrow> fl" where
  "reciprocal x = fl_div (Fin 1) x"

fun fl_abs :: "fl \<Rightarrow> fl" where
  "fl_abs (Fin a) = Fin \<bar>a\<bar>"
| "fl_abs PInf = PInf"
| "fl_abs NInf = PInf"
| "fl_abs NaN = NaN"

fun fl_sqrt :: "fl \<Rightarrow> fl" where
  "fl_sqrt (Fin a) = (if a < 0 then NaN else Fin (sqrt a))"
| "fl_sqrt PInf = PInf"
| "fl_sqrt NInf = NaN"
| "fl_sqrt NaN = NaN"

fun fl_log :: "fl \<Rightarrow> fl" where
  "fl_log (Fin a) = (if a < 0 then NaN else if a = 0 then NInf else Fin (ln a))"
| "fl_log PInf = PInf"
| "fl_log NInf = NaN"
| "fl_log NaN = NaN"

fun isnan :: "fl \<Rightarrow> bool" where
  "isnan NaN = True"
| "isnan _ = False"

fun isfinite :: "fl \<Rightarrow> bool" where
  "isfinite (Fin _) = True"
| "isfinite _ = False"

text \<open>\<^verbatim>\<open>np.sum\<close> of a vector and of a matrix (all entries).\<close>

definition fl_sum :: "fl list \<Rightarrow> fl" where
  "fl_sum xs = foldr fl_add xs (Fin 0)"

definition np_sum :: "fl list list \<Rightarrow> fl" where
  "np_sum a = fl_sum (concat a)"

definition ones :: "nat \<Rightarrow> fl list" where
  "ones n = replicate n (Fin 1)"

section \<open>Errors\<close>

datatype error =
    ValueError string
  | AttributeError
  | TypeError
  | IndexError
  | KeyError
  | LinAlgError
  | ZeroDivisionError

section \<open>Arrays\<close>

text \<open>
  A two-dimensional array is the list of its rows. \<^verbatim>\<open>dim, T = array.shape\<close>:
  \<open>dim\<close> is the number of rows, \<open>T\<close> the length of a row.
\<close>

type_synonym vec = "fl list"
type_synonym mat = "fl list list"

definition shape_T :: "mat \<Rightarrow> nat" where
  "shape_T a = (case a of [] \<Rightarrow> 0 | r # _ \<Rightarrow> length r)"

definition rect :: "mat \<Rightarrow> nat \<Rightarrow> bool" where
  "rect a T = list_all (\<lambda>r. length r = T) a"

text \<open>\<^verbatim>\<open>np.fastCopyAndTranspose(array[2:, :])\<close>: one row per observation.\<close>

definition transpose_rows :: "nat \<Rightarrow> mat \<Rightarrow> mat" where
  "transpose_rows T rows = map (\<lambda>t. map (\<lambda>r. r ! t) rows) [0..<T]"

text \<open>\<^verbatim>\<open>np.dot\<close> of two vectors, of a matrix and a vector, of a vector and a
  matrix, and of two matrices.\<close>

definition dot_vv :: "vec \<Rightarrow> vec \<Rightarrow> fl" where
  "dot_vv x y = fl_sum (map (\<lambda>(a, b). fl_mul a b) (zip x y))"

definition dot_mv :: "mat \<Rightarrow> vec \<Rightarrow> vec" where
  "dot_mv m v = map (\<lambda>row. dot_vv row v) m"

definition column :: "mat \<Rightarrow> nat \<Rightarrow> vec" where
  "column m k = map (\<lambda>row. row ! k) m"

definition dot_vm :: "vec \<Rightarrow> mat \<Rightarrow> vec" where
  "dot_vm v m = map (\<lambda>k. dot_vv v (column m k)) [0..<shape_T m]"

definition dot_mm :: "mat \<Rightarrow> mat \<Rightarrow> mat" where
  "dot_mm a b = map (\<lambda>row. dot_vm row b) a"

text \<open>\<^verbatim>\<open>np.diag(v)\<close>: the square matrix with \<open>v\<close> on its diagonal.\<close>

definition diag :: "vec \<Rightarrow> mat" where
  "diag v = map (\<lambda>i. map (\<lambda>j. if i = j then v ! i else Fin 0) [0..<length v]) [0..<length v]"

section \<open>The least-squares solver\<close>

text \<open>
  \<^verbatim>\<open>np.linalg.lstsq(a, b, rcond=None)[0]\<close> belongs to NumPy, not to this
  repository: every function that calls it takes the solver as its first argument. It
  either raises or returns the coefficient vector.
\<close>

type_synonym solver = "mat \<Rightarrow> vec \<Rightarrow> error + vec"

section \<open>Absolute residuals and the time-dependent estimate\<close>

text \<open>
  Lines 163 to 174 of \<^verbatim>\<open>_estimate_std_time\<close> (and 204 to 213, 234 of
  \<^verbatim>\<open>_estimate_std_parent\<close>): the absolute residuals of the target row after an
  ordinary least-squares fit on the conditioning rows, or the absolute values of the
  row when there are no conditioning rows.
\<close>

definition abs_residuals :: "solver \<Rightarrow> mat \<Rightarrow> nat \<Rightarrow> error + vec" where
  "abs_residuals lstsq arr target_var =
     (if length arr \<le> target_var then Inl IndexError
      else
        let T = shape_T arr;
            y = arr ! target_var
        in if length arr > 2 then
             (let z = transpose_rows T (drop 2 arr)
              in case lstsq z y of
                   Inl e \<Rightarrow> Inl e
                 | Inr beta_hat \<Rightarrow>
                     let mean = dot_mv z beta_hat
                     in Inr (map (\<lambda>(a, b). fl_abs (fl_sub a b)) (zip y mean)))
           else Inr (map fl_abs y))"

text \<open>
  \<^verbatim>\<open>np.convolve(a, v, 'valid')\<close>: the arguments are swapped when \<open>v\<close> is the
  longer one, an empty argument is an error, and entry \<open>k\<close> of the result is
  \<open>\<Sum>j. a[k + j] * v[len(v) - 1 - j]\<close>.
\<close>

definition convolve_valid :: "vec \<Rightarrow> vec \<Rightarrow> error + vec" where
  "convolve_valid a0 v0 =
     (let (a, v) = (if length v0 > length a0 then (v0, a0) else (a0, v0))
      in if a = [] then Inl (ValueError ''a cannot be empty'')
         else if v = [] then Inl (ValueError ''v cannot be empty'')
         else Inr (map (\<lambda>k. fl_sum (map (\<lambda>j. fl_mul (a ! (k + j)) (v ! (length v - 1 - j)))
                                        [0..<length v]))
                     [0..<length a - length v + 1]))"

text \<open>
  Lines 177 to 178 (and 227 to 229, 235 to 237): \<open>window_size - 1\<close> ones followed by
  the moving sums divided by the window size. \<^verbatim>\<open>np.ones\<close> of a negative
  length raises.
\<close>

definition smooth :: "int \<Rightarrow> vec \<Rightarrow> error + vec" where
  "smooth window_size resid =
     (if window_size - 1 < 0 then Inl (ValueError ''negative dimensions are not allowed'')
      else case convolve_valid resid (ones (nat window_size)) of
             Inl e \<Rightarrow> Inl e
           | Inr c \<Rightarrow> Inr (ones (nat (window_size - 1))
                           @ map (\<lambda>x. fl_div x (Fin (real_of_int window_size))) c))"

definition estimate_std_time :: "solver \<Rightarrow> int \<Rightarrow> mat \<Rightarrow> nat \<Rightarrow> error + vec" where
  "estimate_std_time lstsq window_size arr target_var =
     (case abs_residuals lstsq arr target_var of
        Inl e \<Rightarrow> Inl e
      | Inr resid \<Rightarrow> smooth window_size resid)"

section \<open>Python values of the configuration\<close>

text \<open>
  \<^verbatim>\<open>expert_knowledge\<close> is untyped in the source: a string, or a dictionary from
  variable indices to lists. The model keeps the shapes the code can tell apart. A
  dictionary is the list of its items, with distinct keys.
\<close>

datatype pyval =
    PStr string
  | PInt int
  | PTuple "pyval list"
  | PList "pyval list"
  | PDict "(pyval \<times> pyval) list"

definition time_marker :: string where
  "time_marker = ''time-dependent heteroskedasticity''"

definition homo_marker :: string where
  "homo_marker = ''homoskedasticity''"

text \<open>\<^verbatim>\<open>v[0]\<close> on a Python value.\<close>

fun getitem0 :: "pyval \<Rightarrow> error + pyval" where
  "getitem0 (PList []) = Inl IndexError"
| "getitem0 (PList (x # _)) = Inr x"
| "getitem0 (PTuple []) = Inl IndexError"
| "getitem0 (PTuple (x # _)) = Inr x"
| "getitem0 (PStr []) = Inl IndexError"
| "getitem0 (PStr (c # _)) = Inr (PStr [c])"
| "getitem0 (PInt _) = Inl TypeError"
| "getitem0 (PDict kvs) = (case map_of kvs (PInt 0) of None \<Rightarrow> Inl KeyError | Some v \<Rightarrow> Inr v)"

text \<open>
  An integer component of the tuple \<open>H\<close>: \<^verbatim>\<open>H[i]\<close> raises IndexError on a short
  tuple; a component that is not an integer cannot be added to a lag nor index an
  array.
\<close>

definition tuple_int :: "pyval list \<Rightarrow> nat \<Rightarrow> error + int" where
  "tuple_int elems i =
     (if length elems \<le> i then Inl IndexError
      else case elems ! i of PInt n \<Rightarrow> Inr n | _ \<Rightarrow> Inl TypeError)"

text \<open>
  The position a Python integer index denotes in a sequence of \<open>n\<close> elements (from
  the end when it is negative), if any.
\<close>

definition wrap_index :: "nat \<Rightarrow> int \<Rightarrow> nat option" where
  "wrap_index n i =
     (if 0 \<le> i \<and> i < int n then Some (nat i)
      else if i < 0 \<and> - int n \<le> i then Some (nat (int n + i))
      else None)"

definition py_index :: "'a list \<Rightarrow> int \<Rightarrow> error + 'a" where
  "py_index xs i = (case wrap_index (length xs) i of None \<Rightarrow> Inl IndexError | Some k \<Rightarrow> Inr (xs ! k))"

text \<open>The slice \<^verbatim>\<open>xs[start:stop]\<close> with \<open>start \<ge> 0\<close>.\<close>

definition py_slice :: "'a list \<Rightarrow> nat \<Rightarrow> int \<Rightarrow> 'a list" where
  "py_slice xs start stop =
     (let n = int (length xs);
          e = (if stop < 0 then max 0 (n + stop) else min stop n)
      in drop start (take (nat e) xs))"

text \<open>Indexing with an array of indices, \<^verbatim>\<open>xs[idx]\<close>.\<close>

definition take_indices :: "'a list \<Rightarrow> nat list \<Rightarrow> error + 'a list" where
  "take_indices xs idx =
     (if list_all (\<lambda>i. i < length xs) idx then Inr (map (\<lambda>i. xs ! i) idx)
      else Inl IndexError)"

text \<open>\<^verbatim>\<open>np.roll(xs, k)\<close> for \<open>k \<ge> 0\<close>.\<close>

definition roll :: "'a list \<Rightarrow> nat \<Rightarrow> 'a list" where
  "roll xs k =
     (let n = length xs
      in if n = 0 then [] else drop (n - k mod n) xs @ take (n - k mod n) xs)"

section \<open>The test object and its collaborators\<close>

text \<open>A variable reference \<open>(var, lag)\<close>.\<close>

type_synonym var = "int \<times> int"

text \<open>The fields of \<^verbatim>\<open>ParCorrWLS\<close> that the modelled methods read or write.\<close>

record parcorr_wls =
  gt_std_matrix :: "mat option"
  expert_knowledge :: pyval
  window_size :: int
  robustify :: bool
  stds :: "mat option"
  data :: "mat option"
  dataframe_N :: nat

text \<open>
  \<^verbatim>\<open>__init__\<close> (lines 55 to 70). \<open>dataframe_N\<close> stands for
  \<^verbatim>\<open>self.dataframe.N\<close>, set when a dataframe is attached.
\<close>

definition init :: "mat option \<Rightarrow> pyval \<Rightarrow> int \<Rightarrow> bool \<Rightarrow> nat \<Rightarrow> parcorr_wls" where
  "init gt ek w rob n =
     \<lparr> gt_std_matrix = gt, expert_knowledge = ek, window_size = w, robustify = rob,
       stds = None, data = None, dataframe_N = n \<rparr>"

text \<open>
  Code that is not of this file: NumPy's solver and \<^verbatim>\<open>np.argsort\<close> (called
  with its default \<^verbatim>\<open>kind\<close>), the array constructor of the dataframe, the array
  constructor of the ground-truth table, and the transform to normal marginals.

  The array constructor takes the flag \<^verbatim>\<open>return_cleaned_xyz\<close> first (the lag
  window and the mask are part of the closure). Its result is a tuple:
  \<^verbatim>\<open>(array, xyz, (X, Y, Z), data_type)\<close> with the cleaned lists, or
  \<^verbatim>\<open>(array, xyz, data_type)\<close> without them. The callers read the array and the
  lists only. The constructor of the ground-truth table is called with the flag set
  (line 83) and is modelled by the array it returns.
\<close>

datatype constructed =
    Cleaned mat "var list \<times> var list \<times> var list"
  | Plain mat

text \<open>
  \<^verbatim>\<open>array, xyz, XYZ, data_type = ...\<close> (lines 99 and 131): unpacking four
  values from a tuple of three raises.
\<close>

fun unpack_four :: "constructed \<Rightarrow> error + mat \<times> (var list \<times> var list \<times> var list)" where
  "unpack_four (Cleaned a XYZ) = Inr (a, XYZ)"
| "unpack_four (Plain a) = Inl (ValueError ''not enough values to unpack (expected 4, got 3)'')"

record env =
  lstsq :: solver
  argsort :: "vec \<Rightarrow> nat list"
  construct_array :: "bool \<Rightarrow> var list \<Rightarrow> var list \<Rightarrow> var list \<Rightarrow> error + constructed"
  construct_gt :: "mat \<Rightarrow> var list \<Rightarrow> var list \<Rightarrow> var list \<Rightarrow> error + mat"
  trafo2normal :: "mat \<Rightarrow> error + mat"

section \<open>The parent-dependent estimate\<close>

text \<open>
  Lines 214 to 232 of \<^verbatim>\<open>_estimate_std_parent\<close>: the residuals are reordered by
  the indices \<^verbatim>\<open>np.argsort(h)\<close>, smoothed, put back by the argsort of these
  indices, padded and rolled. \<^verbatim>\<open>ordered_z_ind * (ordered_z_ind > 0)\<close> is kept as
  written.
\<close>

definition mask_positive :: "nat list \<Rightarrow> nat list" where
  "mask_positive idx = map (\<lambda>i. i * (if i > 0 then 1 else 0)) idx"

definition sorted_resid :: "(vec \<Rightarrow> nat list) \<Rightarrow> vec \<Rightarrow> vec \<Rightarrow> error + vec" where
  "sorted_resid asort h truncate_resid = take_indices truncate_resid (mask_positive (asort h))"

definition estimate_std_parent ::
  "env \<Rightarrow> parcorr_wls \<Rightarrow> mat \<Rightarrow> nat \<Rightarrow> int \<Rightarrow> pyval list \<Rightarrow> error + vec" where
  "estimate_std_parent E self arr target_var target_lag H =
     (case abs_residuals (lstsq E) arr target_var of
        Inl e \<Rightarrow> Inl e
      | Inr resid \<Rightarrow>
          if length arr > 2 then
            (case tuple_int H 1 of
               Inl e \<Rightarrow> Inl e
             | Inr h1 \<Rightarrow>
                 let lag = h1 + target_lag;
                     T = shape_T arr
                 in (case data self of
                      None \<Rightarrow> Inl AttributeError
                    | Some d \<Rightarrow>
                        (case tuple_int H 0 of
                           Inl e \<Rightarrow> Inl IndexError
                         | Inr h0 \<Rightarrow>
                             (case py_index d h0 of
                                Inl e \<Rightarrow> Inl e
                              | Inr row \<Rightarrow>
                                  let h = py_slice row (nat \<bar>int (shape_T d) - int T\<bar>) lag;
                                      ordered_z_ind = mask_positive (argsort E h);
                                      revert_argsort = argsort E (map (\<lambda>i. Fin (real i)) ordered_z_ind);
                                      truncate_resid = drop (nat \<bar>lag\<bar>) resid
                                  in (case take_indices truncate_resid ordered_z_ind of
                                       Inl e \<Rightarrow> Inl e
                                     | Inr sorted_r \<Rightarrow>
                                         (case smooth (window_size self) sorted_r of
                                            Inl e \<Rightarrow> Inl e
                                          | Inr variance_est_sorted \<Rightarrow>
                                              (case take_indices variance_est_sorted revert_argsort of
                                                 Inl e \<Rightarrow> Inl e
                                               | Inr std_est \<Rightarrow>
                                                   Inr (roll (std_est @ ones (nat \<bar>lag\<bar>))
                                                             (nat \<bar>lag\<bar>)))))))))
          else smooth (window_size self) resid)"

section \<open>Dispatch on the expert knowledge\<close>

text \<open>
  \<^verbatim>\<open>_get_std_estimation\<close> (lines 261 to 272). The dictionary lookup
  \<^verbatim>\<open>variable[0] in self.expert_knowledge\<close> is on the items; a row is assigned
  into the \<open>(2, T)\<close> matrix only when its length is \<open>T\<close>.
\<close>

definition assign_row :: "mat \<Rightarrow> nat \<Rightarrow> vec \<Rightarrow> nat \<Rightarrow> error + mat" where
  "assign_row m i row T =
     (if length row = T then Inr (m[i := row])
      else Inl (ValueError ''could not broadcast input array''))"

definition std_for_variable ::
  "env \<Rightarrow> parcorr_wls \<Rightarrow> (pyval \<times> pyval) list \<Rightarrow> mat \<Rightarrow> mat \<Rightarrow> nat \<Rightarrow> var \<Rightarrow> error + mat" where
  "std_for_variable E self ek arr m count variable =
     (case map_of ek (PInt (fst variable)) of
        None \<Rightarrow> Inr m
      | Some entry \<Rightarrow>
          (case getitem0 entry of
             Inl e \<Rightarrow> Inl e
           | Inr hs_source \<Rightarrow>
               if hs_source = PStr time_marker then
                 (case estimate_std_time (lstsq E) (window_size self) arr count of
                    Inl e \<Rightarrow> Inl e
                  | Inr est \<Rightarrow> assign_row m count est (shape_T arr))
               else (case hs_source of
                       PTuple H \<Rightarrow>
                         (case estimate_std_parent E self arr count (snd variable) H of
                            Inl e \<Rightarrow> Inl e
                          | Inr est \<Rightarrow> assign_row m count est (shape_T arr))
                     | _ \<Rightarrow> Inr m)))"

definition get_std_estimation ::
  "env \<Rightarrow> parcorr_wls \<Rightarrow> mat \<Rightarrow> var list \<Rightarrow> var list \<Rightarrow> error + mat" where
  "get_std_estimation E self arr X Y =
     (case expert_knowledge self of
        PDict ek \<Rightarrow>
          (case (X, Y) of
             (x # _, y # _) \<Rightarrow>
               (case std_for_variable E self ek arr (replicate 2 (ones (shape_T arr))) 0 x of
                  Inl e \<Rightarrow> Inl e
                | Inr m \<Rightarrow> std_for_variable E self ek arr m 1 y)
           | _ \<Rightarrow> Inl IndexError)
      | _ \<Rightarrow> Inl TypeError)"

section \<open>Weights for one test\<close>

text \<open>
  Lines 94 to 115 of \<^verbatim>\<open>_get_stds\<close>. The condition of line 94 is
  \<^verbatim>\<open>any([type(item) == tuple for item in self.expert_knowledge.items()])\<close>: it
  asks of each item of the dictionary, a (key, value) pair, whether it is a tuple.
\<close>

definition item_is_tuple :: "pyval \<times> pyval \<Rightarrow> bool" where
  "item_is_tuple item = True"

definition any_item_is_tuple :: "(pyval \<times> pyval) list \<Rightarrow> bool" where
  "any_item_is_tuple items = list_ex item_is_tuple items"

definition zeros :: "nat \<Rightarrow> nat \<Rightarrow> mat" where
  "zeros n m = replicate n (replicate m (Fin 0))"

text \<open>Lines 112 to 115: the rows of the variables at lag zero are copied into the cache.\<close>

fun collect_lag_zero :: "mat \<Rightarrow> mat \<Rightarrow> (nat \<times> var) list \<Rightarrow> error + mat" where
  "collect_lag_zero d nodes [] = Inr d"
| "collect_lag_zero d nodes ((index, j) # rest) =
     (if snd j = 0 then
        (if length nodes \<le> index then Inl IndexError
         else (case wrap_index (length d) (fst j) of
                 None \<Rightarrow> Inl IndexError
               | Some k \<Rightarrow> collect_lag_zero (d[k := nodes ! index]) nodes rest))
      else collect_lag_zero d nodes rest)"

definition build_data :: "env \<Rightarrow> parcorr_wls \<Rightarrow> var list \<Rightarrow> var list \<Rightarrow> error + mat" where
  "build_data E self X Y =
     (case construct_array E True X Y (map (\<lambda>i. (int i, 0)) [0..<dataframe_N self]) of
        Inl e \<Rightarrow> Inl e
      | Inr r \<Rightarrow>
          (case unpack_four r of
             Inl e \<Rightarrow> Inl e
           | Inr (nodes, (Xc, Yc, Zc)) \<Rightarrow>
               let node_indices = Xc @ Yc @ Zc
               in collect_lag_zero (zeros (dataframe_N self) (shape_T nodes)) nodes
                    (zip [0..<length node_indices] node_indices)))"

text \<open>Lines 89 to 93: the two string markers are replaced by dictionaries.\<close>

definition expand_expert_knowledge :: "parcorr_wls \<Rightarrow> pyval" where
  "expand_expert_knowledge self =
     (if expert_knowledge self = PStr time_marker then
        PDict (map (\<lambda>v. (PInt (int v), PList [PStr time_marker])) [0..<dataframe_N self])
      else if expert_knowledge self = PStr homo_marker then PDict []
      else expert_knowledge self)"

text \<open>
  \<^verbatim>\<open>_get_stds\<close> (lines 72 to 119). The object is returned with its fields as the
  call leaves them; an exception leaves the fields assigned before it.
\<close>

definition get_stds ::
  "env \<Rightarrow> parcorr_wls \<Rightarrow> mat \<Rightarrow> var list \<Rightarrow> var list \<Rightarrow> var list \<Rightarrow> parcorr_wls \<times> (error + unit)" where
  "get_stds E self arr X Y Z =
     (case gt_std_matrix self of
        Some gt \<Rightarrow>
          (case construct_gt E gt X Y Z of
             Inl e \<Rightarrow> (self, Inl e)
           | Inr s \<Rightarrow> (self\<lparr>stds := Some s\<rparr>, Inr ()))
      | None \<Rightarrow>
          let self1 = self\<lparr>expert_knowledge := expand_expert_knowledge self\<rparr>
          in (case expert_knowledge self1 of
               PDict items \<Rightarrow>
                 (if any_item_is_tuple items then
                    (case build_data E self1 X Y of
                       Inl e \<Rightarrow> (self1, Inl e)
                     | Inr d \<Rightarrow>
                         let self2 = self1\<lparr>data := Some d\<rparr>
                         in (case get_std_estimation E self2 arr X Y of
                              Inl e \<Rightarrow> (self2, Inl e)
                            | Inr s \<Rightarrow> (self2\<lparr>stds := Some s\<rparr>, Inr ())))
                  else
                    (case get_std_estimation E self1 arr X Y of
                       Inl e \<Rightarrow> (self1, Inl e)
                     | Inr s \<Rightarrow> (self1\<lparr>stds := Some s\<rparr>, Inr ())))
             | _ \<Rightarrow> (self1, Inl AttributeError)))"

section \<open>The weighted residualizer\<close>

text \<open>Lines 307 to 310: \<^verbatim>\<open>np.isnan(np.sum(array))\<close>.\<close>

definition x_vals_has_nan :: "mat \<Rightarrow> bool" where
  "x_vals_has_nan arr = isnan (np_sum arr)"

text \<open>
  Lines 312 to 318: \<^verbatim>\<open>self.stds[target_var]\<close>; the TypeError of indexing
  \<^verbatim>\<open>None\<close> is caught and replaced by ones (the warning is not modelled), an
  index out of range is not caught.
\<close>

definition lookup_stds :: "parcorr_wls \<Rightarrow> nat \<Rightarrow> nat \<Rightarrow> error + vec" where
  "lookup_stds self target_var T =
     (case stds self of
        None \<Rightarrow> Inr (ones T)
      | Some s \<Rightarrow> if target_var < length s then Inr (s ! target_var) else Inl IndexError)"

text \<open>
  Lines 322 to 326: every row is centred on its mean, then divided by its standard
  deviation (\<^verbatim>\<open>array.std(axis=1)\<close>, the square root of the mean squared deviation
  from the mean) when that is not zero.
\<close>

definition mean_row :: "vec \<Rightarrow> fl" where
  "mean_row r = fl_div (fl_sum r) (Fin (real (length r)))"

definition center_row :: "vec \<Rightarrow> vec" where
  "center_row r = map (\<lambda>x. fl_sub x (mean_row r)) r"

definition std_row :: "vec \<Rightarrow> fl" where
  "std_row r = fl_sqrt (mean_row (map (\<lambda>x. fl_mul (fl_abs (fl_sub x (mean_row r)))
                                                   (fl_abs (fl_sub x (mean_row r)))) r))"

definition scale_row :: "vec \<Rightarrow> vec" where
  "scale_row r = (let s = std_row r in if s \<noteq> Fin 0 then map (\<lambda>x. fl_div x s) r else r)"

definition standardize_array :: "mat \<Rightarrow> mat" where
  "standardize_array arr = map (\<lambda>r. scale_row (center_row r)) arr"

text \<open>
  Lines 333 to 351: the weights are the reciprocals of the standard deviations on a
  diagonal; \<^verbatim>\<open>np.dot\<close> raises when the weights do not have one entry per
  observation.
\<close>

definition weights_of :: "vec \<Rightarrow> mat" where
  "weights_of s = diag (map reciprocal s)"

definition weighted_fit :: "solver \<Rightarrow> vec \<Rightarrow> mat \<Rightarrow> nat \<Rightarrow> error + vec \<times> vec option" where
  "weighted_fit solve s arr target_var =
     (if length arr \<le> target_var then Inl IndexError
      else
        let T = shape_T arr;
            y = arr ! target_var;
            weights = weights_of s
        in if length s \<noteq> T then Inl (ValueError ''shapes not aligned'')
           else if length arr > 2 then
             (let z = transpose_rows T (drop 2 arr);
                  zw = dot_mm weights z;
                  yw = dot_vm y weights
              in (case solve zw yw of
                    Inl e \<Rightarrow> Inl e
                  | Inr beta_hat \<Rightarrow>
                      (let mean = dot_mv z beta_hat;
                           resid = dot_vm (map (\<lambda>(a, b). fl_sub a b) (zip y mean)) weights
                       in if isnan (fl_sum resid) then Inl (ValueError ''resid has nans'')
                          else Inr (resid, Some mean))))
           else Inr (dot_vm y weights, None))"

datatype residuals = Resid vec | ResidMean vec "vec option"

text \<open>
  \<^verbatim>\<open>_get_single_residuals\<close> (lines 304 to 355). The array is the caller's
  object: the first component of the result is the array as the call leaves it.
\<close>

definition get_single_residuals ::
  "solver \<Rightarrow> parcorr_wls \<Rightarrow> mat \<Rightarrow> nat \<Rightarrow> bool \<Rightarrow> bool \<Rightarrow> mat \<times> (error + residuals)" where
  "get_single_residuals solve self arr target_var standardize return_means =
     (if x_vals_has_nan arr then (arr, Inl (ValueError ''array has nans''))
      else
        (case lookup_stds self target_var (shape_T arr) of
           Inl e \<Rightarrow> (arr, Inl e)
         | Inr s \<Rightarrow>
             (let arr1 = (if standardize then standardize_array arr else arr)
              in if standardize \<and> x_vals_has_nan arr1
                 then (arr1, Inl (ValueError ''array has nans''))
                 else (arr1,
                       (case weighted_fit solve s arr1 target_var of
                          Inl e \<Rightarrow> Inl e
                        | Inr (resid, mean) \<Rightarrow>
                            Inr (if return_means then ResidMean resid mean else Resid resid))))))"

section \<open>The orchestrator\<close>

text \<open>
  \<^verbatim>\<open>_get_array\<close> (lines 121 to 141). The flag \<^verbatim>\<open>return_cleaned_xyz\<close> is
  forwarded to the constructor, and the result is unpacked into four values whatever
  the flag.
\<close>

definition get_array ::
  "env \<Rightarrow> parcorr_wls \<Rightarrow> var list \<Rightarrow> var list \<Rightarrow> var list \<Rightarrow> bool \<Rightarrow> parcorr_wls \<times> (error + mat)" where
  "get_array E self X Y Z return_cleaned_xyz =
     (if length X > 1 \<or> length Y > 1
      then (self, Inl (ValueError ''X and Y for par_corr_wls must be univariate.''))
      else (case construct_array E return_cleaned_xyz X Y Z of
              Inl e \<Rightarrow> (self, Inl e)
            | Inr r \<Rightarrow>
                (case unpack_four r of
                   Inl e \<Rightarrow> (self, Inl e)
                 | Inr (arr, _) \<Rightarrow>
                     (case get_stds E self arr X Y Z of
                        (self1, Inl e) \<Rightarrow> (self1, Inl e)
                      | (self1, Inr _) \<Rightarrow> (self1, Inr arr)))))"

text \<open>Lines 406 to 414: the score from the residuals.\<close>

definition rss_of :: "vec \<Rightarrow> fl" where
  "rss_of y = fl_sum (map (\<lambda>v. fl_mul v v) y)"

definition aic_score :: "nat \<Rightarrow> nat \<Rightarrow> vec \<Rightarrow> bool \<Rightarrow> error + fl" where
  "aic_score dm T y corrected_aic =
     (let rss = rss_of y;
          p = int dm - 1;
          base = fl_add (fl_mul (Fin (real T)) (fl_log rss)) (Fin (2 * real_of_int p))
      in if corrected_aic then
           (if int T - p - 1 = 0 then Inl ZeroDivisionError
            else Inr (fl_add base
                        (Fin ((2 * real_of_int (p ^ 2) + 2 * real_of_int p)
                              / real_of_int (int T - p - 1)))))
         else Inr base)"

text \<open>
  \<^verbatim>\<open>get_model_selection_criterion\<close> (lines 394 to 415); the call of
  \<^verbatim>\<open>_get_array\<close> passes \<^verbatim>\<open>return_cleaned_xyz=False\<close> (line 398).
\<close>

definition get_model_selection_criterion ::
  "env \<Rightarrow> parcorr_wls \<Rightarrow> int \<Rightarrow> var list \<Rightarrow> bool \<Rightarrow> parcorr_wls \<times> (error + fl)" where
  "get_model_selection_criterion E self j parents corrected_aic =
     (case get_array E self [(j, 0)] [(j, 0)] parents False of
        (self1, Inl e) \<Rightarrow> (self1, Inl e)
      | (self1, Inr arr) \<Rightarrow>
          (case (if robustify self1 then trafo2normal E arr else Inr arr) of
             Inl e \<Rightarrow> (self1, Inl e)
           | Inr arr1 \<Rightarrow>
               (case snd (get_single_residuals (lstsq E) self1 arr1 1 False False) of
                  Inl e \<Rightarrow> (self1, Inl e)
                | Inr (Resid y) \<Rightarrow> (self1, aic_score (length arr) (shape_T arr) y corrected_aic)
                | Inr (ResidMean y _) \<Rightarrow>
                    (self1, aic_score (length arr) (shape_T arr) y corrected_aic))))"

section \<open>Instances of the collaborators\<close>

text \<open>
  Concrete collaborators, to run the model on examples. The solver is least squares
  with one regressor on finite data, \<open>\<Sum> z y / \<Sum> z z\<close>, and zero when the regressor is
  zero (the solution of least norm); it raises on anything else.
\<close>

definition one_regressor_solver :: solver where
  "one_regressor_solver a b =
     (if list_all (\<lambda>r. length r = 1 \<and> list_all isfinite r) a \<and> list_all isfinite b
         \<and> length a = length b
      then (let z = map hd a; szz = dot_vv z z
            in Inr [if szz = Fin 0 then Fin 0 else fl_div (dot_vv z b) szz])
      else Inl LinAlgError)"

text \<open>An argsort that is a stable insertion sort, NaN last.\<close>

fun fl_le :: "fl \<Rightarrow> fl \<Rightarrow> bool" where
  "fl_le _ NaN = True"
| "fl_le NaN _ = False"
| "fl_le NInf _ = True"
| "fl_le _ PInf = True"
| "fl_le (Fin a) (Fin b) = (a \<le> b)"
| "fl_le _ _ = False"

fun insert_index :: "vec \<Rightarrow> nat \<Rightarrow> nat list \<Rightarrow> nat list" where
  "insert_index h i [] = [i]"
| "insert_index h i (j # js) =
     (if fl_le (h ! j) (h ! i) then j # insert_index h i js else i # j # js)"

definition stable_argsort :: "vec \<Rightarrow> nat list" where
  "stable_argsort h = foldl (\<lambda>acc i. insert_index h i acc) [] [0..<length h]"

text \<open>
  An array constructor that returns a fixed array for every request; when the cleaned
  lists are asked for, they are the requested variables without the members of \<open>Z\<close>
  that are in \<open>X\<close> or \<open>Y\<close>.
\<close>

definition fixed_array :: "mat \<Rightarrow> bool \<Rightarrow> var list \<Rightarrow> var list \<Rightarrow> var list \<Rightarrow> error + constructed" where
  "fixed_array a return_cleaned_xyz X Y Z =
     Inr (if return_cleaned_xyz
          then Cleaned a (X, Y, filter (\<lambda>z. z \<notin> set X \<and> z \<notin> set Y) Z)
          else Plain a)"

definition example_env :: "mat \<Rightarrow> env" where
  "example_env a =
     \<lparr> lstsq = one_regressor_solver, argsort = stable_argsort,
       construct_array = fixed_array a,
       construct_gt = (\<lambda>gt X Y Z. Inr gt),
       trafo2normal = (\<lambda>arr. Inr arr) \<rparr>"

section \<open>The specification's notions\<close>

text \<open>
  The definitions of this section are not of the code: they say what the specification
  says, for the comparison with the code.
\<close>

text \<open>
  Well-formed expert knowledge: one of the two markers, or a mapping from variable
  indices to one-element lists that hold the time-dependent marker or a pair
  (driver index, driver lag).
\<close>

fun well_formed_entry :: "pyval \<times> pyval \<Rightarrow> bool" where
  "well_formed_entry (PInt _, PList [PStr m]) = (m = time_marker)"
| "well_formed_entry (PInt _, PList [PTuple [PInt _, PInt _]]) = True"
| "well_formed_entry _ = False"

fun well_formed_expert_knowledge :: "pyval \<Rightarrow> bool" where
  "well_formed_expert_knowledge (PStr m) = (m = time_marker \<or> m = homo_marker)"
| "well_formed_expert_knowledge (PDict items) = list_all well_formed_entry items"
| "well_formed_expert_knowledge _ = False"

text \<open>A descriptor is parent-dependent when it is a tuple.\<close>

fun parent_dependent_entry :: "pyval \<times> pyval \<Rightarrow> bool" where
  "parent_dependent_entry (_, PList [PTuple _]) = True"
| "parent_dependent_entry _ = False"

text \<open>The score with \<open>p\<close> parameters.\<close>

definition score_with :: "nat \<Rightarrow> vec \<Rightarrow> nat \<Rightarrow> fl" where
  "score_with T y p = fl_add (fl_mul (Fin (real T)) (fl_log (rss_of y))) (Fin (2 * real p))"

text \<open>
  The regression of the target row on the conditioning rows, entry by entry. The
  design matrix has one row per observation \<open>t\<close> and one column per conditioning row
  \<open>2 + j\<close>; the fitted value at \<open>t\<close> is \<open>\<Sum>j. arr[2 + j][t] * beta[j]\<close>; the absolute
  residual at \<open>t\<close> is the distance of the target row from the fitted value, and the
  absolute value of the target row when there is no conditioning row.
\<close>

definition design_matrix :: "mat \<Rightarrow> nat \<Rightarrow> mat" where
  "design_matrix arr T = map (\<lambda>t. map (\<lambda>j. arr ! (2 + j) ! t) [0..<length arr - 2]) [0..<T]"

definition fitted_value :: "mat \<Rightarrow> vec \<Rightarrow> nat \<Rightarrow> fl" where
  "fitted_value arr beta t =
     fl_sum (map (\<lambda>j. fl_mul (arr ! (2 + j) ! t) (beta ! j)) [0..<length arr - 2])"

definition abs_residual_at :: "mat \<Rightarrow> nat \<Rightarrow> vec \<Rightarrow> nat \<Rightarrow> fl" where
  "abs_residual_at arr tv beta t =
     (if length arr > 2 then fl_abs (fl_sub (arr ! tv ! t) (fitted_value arr beta t))
      else fl_abs (arr ! tv ! t))"

text \<open>The mean of the \<open>w\<close> values of \<open>r\<close> that end at position \<open>t\<close>.\<close>

definition trailing_mean :: "nat \<Rightarrow> (nat \<Rightarrow> fl) \<Rightarrow> nat \<Rightarrow> fl" where
  "trailing_mean w r t = fl_div (fl_sum (map r [t + 1 - w..<t + 1])) (Fin (real w))"

text \<open>
  Standardisation of a row of reals: centred on its mean, and divided by its standard
  deviation when that is not zero.
\<close>

definition mean_real :: "real list \<Rightarrow> real" where
  "mean_real r = sum_list r / real (length r)"

definition std_real :: "real list \<Rightarrow> real" where
  "std_real r = sqrt (mean_real (map (\<lambda>x. (x - mean_real r)\<^sup>2) r))"

definition standardized_row :: "real list \<Rightarrow> real list" where
  "standardized_row r =
     (if std_real r \<noteq> 0 then map (\<lambda>x. (x - mean_real r) / std_real r) r
      else map (\<lambda>x. x - mean_real r) r)"

text \<open>
  The residual of an ordinary, unweighted least-squares regression of the target row
  on the conditioning rows.
\<close>

definition ols_residual :: "solver \<Rightarrow> mat \<Rightarrow> nat \<Rightarrow> error + vec" where
  "ols_residual solve arr target_var =
     (if length arr \<le> target_var then Inl IndexError
      else
        let y = arr ! target_var
        in if length arr > 2 then
             (let z = transpose_rows (shape_T arr) (drop 2 arr)
              in case solve z y of
                   Inl e \<Rightarrow> Inl e
                 | Inr beta_hat \<Rightarrow> Inr (map (\<lambda>(a, b). fl_sub a b) (zip y (dot_mv z beta_hat))))
           else Inr y)"

text \<open>Scaling of vectors, matrices and results by a finite factor.\<close>

definition scale_vec :: "real \<Rightarrow> vec \<Rightarrow> vec" where
  "scale_vec k v = map (fl_mul (Fin k)) v"

definition scale_mat :: "real \<Rightarrow> mat \<Rightarrow> mat" where
  "scale_mat k m = map (scale_vec k) m"

fun scale_residuals :: "real \<Rightarrow> residuals \<Rightarrow> residuals" where
  "scale_residuals k (Resid r) = Resid (scale_vec k r)"
| "scale_residuals k (ResidMean r m) = ResidMean (scale_vec k r) m"

text \<open>A solver is scale invariant when a common positive factor of both arguments
  does not change its result; the exact solution of least norm is.\<close>

definition scale_invariant :: "solver \<Rightarrow> bool" where
  "scale_invariant solve =
     (\<forall>k a b. 0 < k \<longrightarrow> solve (scale_mat k a) (scale_vec k b) = solve a b)"

text \<open>A solver is finite when its coefficients for finite data are finite.\<close>

definition finite_solver :: "solver \<Rightarrow> bool" where
  "finite_solver solve =
     (\<forall>a b beta. list_all (list_all isfinite) a \<and> list_all isfinite b \<and> solve a b = Inr beta
         \<longrightarrow> list_all isfinite beta)"

section \<open>The moving average\<close>

lemma fl_mul_one_right: "fl_mul x (Fin 1) = x"
  by (cases x) (simp_all add: inf_of_sign_def)

lemma window_take_drop:
  assumes "k + w \<le> length a"
  shows "map (\<lambda>j. fl_mul (a ! (k + j)) (ones w ! (w - 1 - j))) [0..<w] = take w (drop k a)"
proof (rule nth_equalityI)
  show "length (map (\<lambda>j. fl_mul (a ! (k + j)) (ones w ! (w - 1 - j))) [0..<w])
        = length (take w (drop k a))"
    using assms by simp
next
  fix i assume "i < length (map (\<lambda>j. fl_mul (a ! (k + j)) (ones w ! (w - 1 - j))) [0..<w])"
  then have i: "i < w" by simp
  then have "ones w ! (w - 1 - i) = Fin 1" by (simp add: ones_def)
  with i assms
  show "map (\<lambda>j. fl_mul (a ! (k + j)) (ones w ! (w - 1 - j))) [0..<w] ! i
        = take w (drop k a) ! i"
    by (simp add: fl_mul_one_right)
qed

lemma convolve_valid_ones:
  assumes "0 < w" "w \<le> length a"
  shows "convolve_valid a (ones w) =
         Inr (map (\<lambda>k. fl_sum (take w (drop k a))) [0..<length a - w + 1])"
proof -
  have ne: "a \<noteq> []" "ones w \<noteq> []" using assms by (auto simp: ones_def)
  have len: "length (ones w) = w" by (simp add: ones_def)
  have "map (\<lambda>k. fl_sum (map (\<lambda>j. fl_mul (a ! (k + j)) (ones w ! (w - 1 - j))) [0..<w]))
            [0..<length a - w + 1]
        = map (\<lambda>k. fl_sum (take w (drop k a))) [0..<length a - w + 1]"
    using assms by (intro map_cong refl arg_cong[where f=fl_sum] window_take_drop) auto
  then show ?thesis
    using assms ne by (simp add: convolve_valid_def len)
qed

lemma smooth_window:
  assumes "1 \<le> w" "nat w \<le> length resid"
  shows "smooth w resid =
         Inr (ones (nat w - 1)
              @ map (\<lambda>k. fl_div (fl_sum (take (nat w) (drop k resid))) (Fin (real_of_int w)))
                    [0..<length resid - nat w + 1])"
proof -
  have "0 < nat w" using assms by simp
  from convolve_valid_ones[OF this assms(2)] assms(1) show ?thesis
    by (simp add: smooth_def comp_def nat_diff_distrib)
qed

lemma length_dot_mv: "length (dot_mv m v) = length m"
  by (simp add: dot_mv_def)

lemma length_transpose_rows: "length (transpose_rows T rows) = T"
  by (simp add: transpose_rows_def)

lemma rect_shape_T: "rect arr T \<Longrightarrow> arr \<noteq> [] \<Longrightarrow> shape_T arr = T"
  by (cases arr) (auto simp: shape_T_def rect_def)

lemma rect_nth: "rect arr T \<Longrightarrow> i < length arr \<Longrightarrow> length (arr ! i) = T"
  by (simp add: rect_def list_all_length)

lemma abs_residuals_length:
  assumes "rect arr T" "abs_residuals solve arr tv = Inr resid"
  shows "length resid = T"
proof -
  from assms(2) have tv: "tv < length arr"
    by (auto simp: abs_residuals_def split: if_splits)
  with assms(1) have ly: "length (arr ! tv) = T" by (rule rect_nth)
  from tv assms(1) have sT: "shape_T arr = T" by (auto intro: rect_shape_T)
  from assms(2) tv ly sT show ?thesis
    by (auto simp: abs_residuals_def Let_def length_dot_mv length_transpose_rows
             split: if_splits sum.splits)
qed

lemma transpose_rows_design: "transpose_rows T (drop 2 arr) = design_matrix arr T"
proof -
  have "map (\<lambda>r. r ! t) (drop 2 arr) = map (\<lambda>j. arr ! (2 + j) ! t) [0..<length arr - 2]" for t
    by (rule nth_equalityI) simp_all
  then show ?thesis by (simp add: transpose_rows_def design_matrix_def)
qed

lemma zip_range_with:
  assumes "length v = d"
  shows "zip (map f [0..<d]) v = map (\<lambda>j. (f j, v ! j)) [0..<d]"
  using assms by (intro nth_equalityI) simp_all

lemma dot_mv_design_nth:
  assumes "length beta = length arr - 2" "t < T"
  shows "dot_mv (design_matrix arr T) beta ! t = fitted_value arr beta t"
proof -
  have "dot_mv (design_matrix arr T) beta ! t
        = dot_vv (map (\<lambda>j. arr ! (2 + j) ! t) [0..<length arr - 2]) beta"
    using assms(2) by (simp add: dot_mv_def design_matrix_def)
  also have "\<dots> = fitted_value arr beta t"
    unfolding dot_vv_def fitted_value_def zip_range_with[OF assms(1)]
    by (simp add: comp_def)
  finally show ?thesis .
qed

lemma abs_residuals_entries:
  assumes r: "rect arr T" and tv: "tv < length arr"
    and fit: "2 < length arr \<longrightarrow>
              solve (design_matrix arr T) (arr ! tv) = Inr beta \<and> length beta = length arr - 2"
  shows "abs_residuals solve arr tv = Inr (map (abs_residual_at arr tv beta) [0..<T])"
proof -
  from tv have ne: "arr \<noteq> []" by auto
  from r ne have sT: "shape_T arr = T" by (rule rect_shape_T)
  from r tv have ly: "length (arr ! tv) = T" by (rule rect_nth)
  show ?thesis
  proof (cases "2 < length arr")
    case False
    have "map fl_abs (arr ! tv) = map (abs_residual_at arr tv beta) [0..<T]"
      using False ly by (intro nth_equalityI) (simp_all add: abs_residual_at_def)
    then show ?thesis
      using False tv by (simp add: abs_residuals_def)
  next
    case True
    with fit have sol: "solve (design_matrix arr T) (arr ! tv) = Inr beta"
      and lb: "length beta = length arr - 2" by simp_all
    let ?mean = "dot_mv (design_matrix arr T) beta"
    have lm: "length ?mean = T" by (simp add: length_dot_mv design_matrix_def)
    have "map (\<lambda>(a, b). fl_abs (fl_sub a b)) (zip (arr ! tv) ?mean)
          = map (abs_residual_at arr tv beta) [0..<T]"
    proof (rule nth_equalityI)
      show "length (map (\<lambda>(a, b). fl_abs (fl_sub a b)) (zip (arr ! tv) ?mean))
            = length (map (abs_residual_at arr tv beta) [0..<T])"
        using ly lm by simp
    next
      fix t
      assume "t < length (map (\<lambda>(a, b). fl_abs (fl_sub a b)) (zip (arr ! tv) ?mean))"
      then have t: "t < T" using ly lm by simp
      then show "map (\<lambda>(a, b). fl_abs (fl_sub a b)) (zip (arr ! tv) ?mean) ! t
                 = map (abs_residual_at arr tv beta) [0..<T] ! t"
        using True ly lm by (simp add: abs_residual_at_def dot_mv_design_nth[OF lb t])
    qed
    then show ?thesis
      using True tv sol by (simp add: abs_residuals_def sT transpose_rows_design)
  qed
qed

lemma window_of_range:
  assumes "k + n \<le> T"
  shows "take n (drop k (map r [0..<T])) = map r [k..<k + n]"
proof -
  have "take n (drop k (map r [0..<T])) = map r (take n (drop k [0..<T]))"
    by (simp only: take_map drop_map)
  also have "drop k [0..<T] = [k..<T]" by simp
  also have "take n [k..<T] = [k..<k + n]" using assms by (rule take_upt)
  finally show ?thesis .
qed

text \<open>
  C7. With a window \<open>1 \<le> w \<le> T\<close>, the time-dependent estimate of an array with \<open>T\<close>
  observations has length \<open>T\<close>; its first \<open>w - 1\<close> entries are 1, and its entry at
  \<open>t \<ge> w - 1\<close> is the mean of the \<open>w\<close> absolute residuals ending at \<open>t\<close>, where the
  residual at an observation is the distance of the target row from the value fitted
  on the conditioning rows with the coefficients of the solver (the absolute value of
  the target row when there is no conditioning row).
\<close>

theorem estimate_std_time_window:
  assumes "1 \<le> w" and "nat w \<le> T" and "rect arr T" and "tv < length arr"
    and "2 < length arr \<longrightarrow>
         solve (design_matrix arr T) (arr ! tv) = Inr beta \<and> length beta = length arr - 2"
  shows "\<exists>est. estimate_std_time solve w arr tv = Inr est \<and> length est = T
           \<and> (\<forall>t < nat w - 1. est ! t = Fin 1)
           \<and> (\<forall>t. nat w - 1 \<le> t \<and> t < T \<longrightarrow>
                  est ! t = trailing_mean (nat w) (abs_residual_at arr tv beta) t)"
proof -
  let ?n = "nat w"
  let ?r = "abs_residual_at arr tv beta"
  let ?resid = "map ?r [0..<T]"
  let ?f = "\<lambda>k. fl_div (fl_sum (take ?n (drop k ?resid))) (Fin (real_of_int w))"
  let ?m = "length ?resid - ?n + 1"
  let ?est = "ones (?n - 1) @ map ?f [0..<?m]"
  have res: "abs_residuals solve arr tv = Inr ?resid"
    using assms(3) assms(4) assms(5) by (rule abs_residuals_entries)
  have len: "length ?resid = T" by simp
  have n: "0 < ?n" "?n \<le> length ?resid" using assms(1,2) by simp_all
  have w: "real_of_int w = real ?n" using assms(1) by simp
  have run: "estimate_std_time solve w arr tv = Inr ?est"
    using res smooth_window[OF assms(1) n(2)] by (simp add: estimate_std_time_def)
  have l: "length ?est = T" using n by (simp add: ones_def)
  have head: "?est ! t = Fin 1" if "t < ?n - 1" for t
    using that by (simp add: nth_append ones_def)
  have tail: "?est ! t = trailing_mean ?n ?r t" if "?n - 1 \<le> t" "t < T" for t
  proof -
    have k: "t - (?n - 1) < ?m" using that n by simp
    have eq: "t - (?n - 1) = t + 1 - ?n" using that n by arith
    have win: "t + 1 - ?n + ?n \<le> T" using that n by arith
    have end_eq: "t + 1 - ?n + ?n = t + 1" using that n by arith
    have "?est ! t = map ?f [0..<?m] ! (t - (?n - 1))"
      using that by (simp add: nth_append ones_def del: upt_Suc)
    also have "\<dots> = ?f (t - (?n - 1))"
      using k by (simp del: upt_Suc)
    also have "\<dots> = ?f (t + 1 - ?n)" by (simp only: eq)
    also have "\<dots> = fl_div (fl_sum (map ?r [t + 1 - ?n..<t + 1 - ?n + ?n])) (Fin (real ?n))"
      by (simp only: window_of_range[OF win] w)
    also have "\<dots> = trailing_mean ?n ?r t"
      by (simp only: end_eq trailing_mean_def)
    finally show ?thesis .
  qed
  from run l head tail show ?thesis by blast
qed

theorem estimate_std_time_window_witness:
  "(1::int) \<le> 2 \<and> nat 2 \<le> (3::nat)
   \<and> rect [[Fin 4, Fin (- 2), Fin 5], [Fin 0, Fin 0, Fin 0], [Fin 1, Fin 1, Fin 2]] 3
   \<and> one_regressor_solver
        (design_matrix [[Fin 4, Fin (- 2), Fin 5], [Fin 0, Fin 0, Fin 0], [Fin 1, Fin 1, Fin 2]] 3)
        [Fin 4, Fin (- 2), Fin 5] = Inr [Fin 2]
   \<and> map (abs_residual_at [[Fin 4, Fin (- 2), Fin 5], [Fin 0, Fin 0, Fin 0], [Fin 1, Fin 1, Fin 2]]
             0 [Fin 2]) [0, 1, 2] = [Fin 2, Fin 4, Fin 1]
   \<and> (\<exists>est. estimate_std_time one_regressor_solver 2
               [[Fin 4, Fin (- 2), Fin 5], [Fin 0, Fin 0, Fin 0], [Fin 1, Fin 1, Fin 2]] 0 = Inr est
         \<and> length est = 3 \<and> est ! 0 = Fin 1 \<and> est ! 1 = Fin 3 \<and> est ! 2 = Fin (5 / 2))"
proof -
  let ?A = "[[Fin 4, Fin (- 2), Fin 5], [Fin 0, Fin 0, Fin 0], [Fin 1, Fin 1, Fin 2]]"
  have h1: "(1::int) \<le> 2" and h2: "nat 2 \<le> (3::nat)" by simp_all
  have h3: "rect ?A 3" by (simp add: rect_def)
  have h4: "(0::nat) < length ?A" by simp
  have d: "design_matrix ?A 3 = [[Fin 1], [Fin 1], [Fin 2]]"
    by (simp add: design_matrix_def upt_rec numeral_3_eq_3)
  have sol: "one_regressor_solver (design_matrix ?A 3) (?A ! 0) = Inr [Fin 2]"
    unfolding d by (simp add: one_regressor_solver_def dot_vv_def fl_sum_def)
  have h5: "2 < length ?A \<longrightarrow>
            one_regressor_solver (design_matrix ?A 3) (?A ! 0) = Inr [Fin 2]
            \<and> length [Fin 2] = length ?A - 2"
    using sol by simp
  have r0: "abs_residual_at ?A 0 [Fin 2] 0 = Fin 2"
    and r1: "abs_residual_at ?A 0 [Fin 2] 1 = Fin 4"
    and r2: "abs_residual_at ?A 0 [Fin 2] 2 = Fin 1"
    by (simp_all add: abs_residual_at_def fitted_value_def fl_sum_def fl_sub_def)
  from estimate_std_time_window[where solve = one_regressor_solver and beta = "[Fin 2]",
         OF h1 h2 h3 h4 h5]
  obtain est where e: "estimate_std_time one_regressor_solver 2 ?A 0 = Inr est" "length est = 3"
    "\<forall>t < nat 2 - 1. est ! t = Fin 1"
    "\<forall>t. nat 2 - 1 \<le> t \<and> t < 3 \<longrightarrow>
         est ! t = trailing_mean (nat 2) (abs_residual_at ?A 0 [Fin 2]) t"
    by blast
  from e(3) have e0: "est ! 0 = Fin 1" by simp
  from e(4) have "est ! 1 = trailing_mean (nat 2) (abs_residual_at ?A 0 [Fin 2]) 1" by simp
  then have e1: "est ! 1 = Fin 3"
    by (simp add: trailing_mean_def upt_rec r0 r1 [unfolded One_nat_def] fl_sum_def)
  from e(4) have "est ! 2 = trailing_mean (nat 2) (abs_residual_at ?A 0 [Fin 2]) 2" by simp
  then have e2: "est ! 2 = Fin (5 / 2)"
    by (simp add: trailing_mean_def upt_rec r1 [unfolded One_nat_def] r2
          r2 [unfolded numeral_2_eq_2] fl_sum_def)
  from e(1,2) e0 e1 e2 h1 h2 h3 sol r0 r1 r2 show ?thesis by simp
qed

section \<open>Weights, the not-a-number check and the data cache\<close>

lemma fl_sum_Nil: "fl_sum [] = Fin 0" by (simp add: fl_sum_def)
lemma fl_sum_Cons: "fl_sum (x # xs) = fl_add x (fl_sum xs)" by (simp add: fl_sum_def)

lemmas eval_defs = fl_sum_Nil fl_sum_Cons np_sum_def x_vals_has_nan_def shape_T_def
  dot_vv_def dot_vm_def dot_mm_def dot_mv_def column_def diag_def weights_of_def reciprocal_def
  transpose_rows_def inf_of_sign_def ones_def lookup_stds_def weighted_fit_def
  get_single_residuals_def init_def


text \<open>
  C5, at an array without NaN: the check of lines 307 to 310 tests the sum of the
  entries, and the sum of an infinity and the opposite infinity is NaN, so the call
  raises \<open>array has nans\<close> on an array that has none.
\<close>

theorem nan_check_rejects_opposite_infinities:
  "\<not> list_ex isnan (concat [[PInf], [NInf]])
   \<and> get_single_residuals solve self [[PInf], [NInf]] tv st rm
      = ([[PInf], [NInf]], Inl (ValueError ''array has nans''))"
  by (simp add: eval_defs)

lemmas stds_defs = get_stds_def expand_expert_knowledge_def any_item_is_tuple_def item_is_tuple_def
  build_data_def example_env_def fixed_array_def zeros_def wrap_index_def get_std_estimation_def
  std_for_variable_def estimate_std_time_def abs_residuals_def smooth_def convolve_valid_def
  assign_row_def time_marker_def homo_marker_def

text \<open>
  C3, at the default configuration with one variable: every descriptor of the
  registry is time-dependent, and the call assigns \<open>self.data\<close>, which was
  \<open>None\<close>.
\<close>

theorem cache_built_for_time_dependent_registry:
  "list_all (\<lambda>item. \<not> parent_dependent_entry item)
     [(PInt 0, PList [PStr time_marker])]
   \<and> expert_knowledge (fst (get_stds (example_env [[Fin 1, Fin 2, Fin 3], [Fin 1, Fin 2, Fin 3]])
         (init None (PStr time_marker) 2 False 1)
         [[Fin 1, Fin 2, Fin 3], [Fin 1, Fin 2, Fin 3]] [(0, 0)] [(0, 0)] []))
       = PDict [(PInt 0, PList [PStr time_marker])]
   \<and> data (init None (PStr time_marker) 2 False 1) = None
   \<and> data (fst (get_stds (example_env [[Fin 1, Fin 2, Fin 3], [Fin 1, Fin 2, Fin 3]])
         (init None (PStr time_marker) 2 False 1)
         [[Fin 1, Fin 2, Fin 3], [Fin 1, Fin 2, Fin 3]] [(0, 0)] [(0, 0)] []))
       = Some [[Fin 1, Fin 2, Fin 3]]"
  by (simp add: stds_defs eval_defs upt_rec numeral_2_eq_2)

text \<open>
  C2 as stated fails: a mapping whose entry is a one-element list holding an unknown
  string is not well formed, and the weight estimation returns without an error, with
  standard deviations of one.
\<close>

theorem malformed_mapping_accepted:
  "\<not> well_formed_expert_knowledge (PDict [(PInt 0, PList [PStr ''foo''])])
   \<and> get_stds (example_env [[Fin 1, Fin 2, Fin 3], [Fin 1, Fin 2, Fin 3]])
         (init None (PDict [(PInt 0, PList [PStr ''foo''])]) 2 False 1)
         [[Fin 1, Fin 2, Fin 3], [Fin 1, Fin 2, Fin 3]] [(0, 0)] [(0, 0)] []
      = ((init None (PDict [(PInt 0, PList [PStr ''foo''])]) 2 False 1)
           \<lparr>stds := Some [[Fin 1, Fin 1, Fin 1], [Fin 1, Fin 1, Fin 1]],
            data := Some [[Fin 1, Fin 2, Fin 3]]\<rparr>, Inr ())"
  by (simp add: stds_defs eval_defs upt_rec numeral_2_eq_2)

section \<open>Malformed configuration and the score\<close>

text \<open>
  C2, amended. Without a ground-truth table, expert knowledge that is neither of the
  two markers nor a mapping makes the weight estimation raise (AttributeError, at
  \<open>.items()\<close>), and leaves the object as it was.
\<close>

theorem non_mapping_expert_knowledge_raises:
  assumes "gt_std_matrix self = None"
    and "expert_knowledge self \<noteq> PStr time_marker"
    and "expert_knowledge self \<noteq> PStr homo_marker"
    and "\<forall>items. expert_knowledge self \<noteq> PDict items"
  shows "get_stds E self arr X Y Z = (self, Inl AttributeError)"
  using assms
  by (cases "expert_knowledge self") (simp_all add: get_stds_def expand_expert_knowledge_def)

theorem non_mapping_expert_knowledge_raises_witness:
  "gt_std_matrix (init None (PStr ''foo'') 2 False 1) = None
   \<and> expert_knowledge (init None (PStr ''foo'') 2 False 1) \<noteq> PStr time_marker
   \<and> expert_knowledge (init None (PStr ''foo'') 2 False 1) \<noteq> PStr homo_marker
   \<and> (\<forall>items. expert_knowledge (init None (PStr ''foo'') 2 False 1) \<noteq> PDict items)
   \<and> \<not> well_formed_expert_knowledge (PStr ''foo'')
   \<and> get_stds (example_env [[Fin 1, Fin 2, Fin 3], [Fin 1, Fin 2, Fin 3]])
        (init None (PStr ''foo'') 2 False 1)
        [[Fin 1, Fin 2, Fin 3], [Fin 1, Fin 2, Fin 3]] [(0, 0)] [(0, 0)] []
      = (init None (PStr ''foo'') 2 False 1, Inl AttributeError)"
proof -
  let ?self = "init None (PStr ''foo'') 2 False 1"
  have h1: "gt_std_matrix ?self = None" by (simp add: init_def)
  have h2: "expert_knowledge ?self \<noteq> PStr time_marker" by (simp add: init_def time_marker_def)
  have h3: "expert_knowledge ?self \<noteq> PStr homo_marker" by (simp add: init_def homo_marker_def)
  have h4: "\<forall>items. expert_knowledge ?self \<noteq> PDict items" by (simp add: init_def)
  have h5: "\<not> well_formed_expert_knowledge (PStr ''foo'')"
    by (simp add: time_marker_def homo_marker_def)
  from non_mapping_expert_knowledge_raises[OF h1 h2 h3 h4] h1 h2 h3 h4 h5 show ?thesis by blast
qed

lemmas score_defs = get_model_selection_criterion_def get_array_def aic_score_def rss_of_def
  score_with_def

text \<open>
  Lines 406 to 414 count \<open>p = dim - 1\<close> parameters: one more than the number of
  conditioning rows of an array with the rows X, Y and one row per parent.
\<close>

lemma aic_score_counts_rows_minus_one:
  "0 < dm \<Longrightarrow> aic_score dm T y False = Inr (score_with T y (dm - 1))"
  by (simp add: aic_score_def score_with_def Let_def)

text \<open>
  C1. The call does not return a score. Line 398 asks \<^verbatim>\<open>_get_array\<close> for
  \<^verbatim>\<open>return_cleaned_xyz=False\<close>, line 131 forwards the flag and unpacks four
  values; a constructor that returns its three values without the cleaned lists makes
  every call raise at the unpacking, before the residuals and the score are computed,
  and the object is left as it was.
\<close>

theorem model_selection_criterion_raises_at_unpack:
  assumes "construct_array E False [(j, 0)] [(j, 0)] parents = Inr (Plain arr)"
  shows "get_model_selection_criterion E self j parents corrected_aic
         = (self, Inl (ValueError ''not enough values to unpack (expected 4, got 3)''))"
  using assms by (simp add: get_model_selection_criterion_def get_array_def)

theorem model_selection_criterion_raises_at_unpack_witness:
  "construct_array (example_env [[Fin 1, Fin 2], [Fin 1, Fin 2], [Fin 1, Fin 1]])
      False [(0, 0)] [(0, 0)] [(1, - 1)]
    = Inr (Plain [[Fin 1, Fin 2], [Fin 1, Fin 2], [Fin 1, Fin 1]])
   \<and> get_model_selection_criterion
        (example_env [[Fin 1, Fin 2], [Fin 1, Fin 2], [Fin 1, Fin 1]])
        (init None (PStr homo_marker) 10 False 2) 0 [(1, - 1)] False
      = (init None (PStr homo_marker) 10 False 2,
         Inl (ValueError ''not enough values to unpack (expected 4, got 3)''))"
proof -
  let ?A = "[[Fin 1, Fin 2], [Fin 1, Fin 2], [Fin 1, Fin 1]]"
  have h: "construct_array (example_env ?A) False [(0, 0)] [(0, 0)] [(1, - 1)] = Inr (Plain ?A)"
    by (simp add: example_env_def fixed_array_def)
  from model_selection_criterion_raises_at_unpack[OF h] h show ?thesis by simp
qed

section \<open>Standardisation in place\<close>

lemma fl_sum_Fin: "fl_sum (map Fin xs) = Fin (sum_list xs)"
  by (induction xs) (simp_all add: fl_sum_def)

lemma mean_row_Fin: "r \<noteq> [] \<Longrightarrow> mean_row (map Fin r) = Fin (mean_real r)"
  by (simp add: mean_row_def mean_real_def fl_sum_Fin)

lemma fl_sub_Fin: "fl_sub (Fin a) (Fin b) = Fin (a - b)"
  by (simp add: fl_sub_def)

lemma center_row_Fin:
  "r \<noteq> [] \<Longrightarrow> center_row (map Fin r) = map Fin (map (\<lambda>x. x - mean_real r) r)"
  by (simp add: center_row_def mean_row_Fin fl_sub_Fin comp_def)

lemma sum_list_centered:
  "sum_list (map (\<lambda>x. x - m) r) = sum_list r - real (length r) * (m::real)"
  by (induction r) (simp_all add: algebra_simps)

lemma mean_real_centered:
  assumes "r \<noteq> []"
  shows "mean_real (map (\<lambda>x. x - mean_real r) r) = 0"
proof -
  have "real (length r) \<noteq> 0" using assms by simp
  then show ?thesis
    by (simp add: mean_real_def sum_list_centered)
qed

lemma std_real_centered:
  assumes "r \<noteq> []"
  shows "std_real (map (\<lambda>x. x - mean_real r) r) = std_real r"
  by (simp add: std_real_def mean_real_centered[OF assms] comp_def)

lemma mean_real_squares_nonneg: "0 \<le> mean_real (map (\<lambda>x. (x - m)\<^sup>2) r)"
proof -
  have "0 \<le> sum_list (map (\<lambda>x. (x - m)\<^sup>2) r)"
    by (rule sum_list_nonneg) auto
  then show ?thesis by (simp add: mean_real_def)
qed

lemma std_row_Fin:
  assumes "c \<noteq> []"
  shows "std_row (map Fin c) = Fin (std_real c)"
proof -
  have sq: "map (\<lambda>x. fl_mul (fl_abs (fl_sub x (Fin (mean_real c)))) (fl_abs (fl_sub x (Fin (mean_real c)))))
              (map Fin c)
            = map Fin (map (\<lambda>x. (x - mean_real c)\<^sup>2) c)"
    by (simp add: fl_sub_Fin comp_def power2_eq_square)
  have ne: "map (\<lambda>x. (x - mean_real c)\<^sup>2) c \<noteq> []" using assms by simp
  have "std_row (map Fin c) = fl_sqrt (Fin (mean_real (map (\<lambda>x. (x - mean_real c)\<^sup>2) c)))"
    unfolding std_row_def mean_row_Fin[OF assms] sq mean_row_Fin[OF ne] ..
  also have "\<dots> = Fin (std_real c)"
    using mean_real_squares_nonneg[of "mean_real c" c] by (simp add: std_real_def)
  finally show ?thesis .
qed

lemma scale_row_Fin:
  assumes "c \<noteq> []"
  shows "scale_row (map Fin c)
         = map Fin (if std_real c \<noteq> 0 then map (\<lambda>x. x / std_real c) c else c)"
  by (simp add: scale_row_def std_row_Fin[OF assms] Let_def comp_def)

lemma standardize_row_Fin:
  "scale_row (center_row (map Fin r)) = map Fin (standardized_row r)"
proof (cases "r = []")
  case True
  then show ?thesis by (simp add: scale_row_def center_row_def standardized_row_def Let_def)
next
  case False
  let ?c = "map (\<lambda>x. x - mean_real r) r"
  have c: "?c \<noteq> []" using False by simp
  have "scale_row (center_row (map Fin r)) = scale_row (map Fin ?c)"
    by (simp only: center_row_Fin[OF False])
  also have "\<dots> = map Fin (if std_real ?c \<noteq> 0 then map (\<lambda>x. x / std_real ?c) ?c else ?c)"
    by (rule scale_row_Fin[OF c])
  also have "\<dots> = map Fin (standardized_row r)"
    by (simp add: std_real_centered[OF False] standardized_row_def comp_def)
  finally show ?thesis .
qed

lemma standardize_array_Fin:
  "standardize_array (map (map Fin) a) = map (map Fin) (map standardized_row a)"
  by (simp add: standardize_array_def standardize_row_Fin comp_def)

lemma np_sum_Fin: "np_sum (map (map Fin) a) = Fin (sum_list (concat a))"
  by (simp add: np_sum_def map_concat[symmetric] fl_sum_Fin)

lemma no_nan_Fin: "\<not> x_vals_has_nan (map (map Fin) a)"
  by (simp add: x_vals_has_nan_def np_sum_Fin)

text \<open>
  C9. A call with \<open>standardize = True\<close> that passes the first check and finds its
  standard deviations leaves the caller's array standardised, whatever it returns or
  raises afterwards: every row is centred on its mean, and divided by its standard
  deviation when that is not zero.
\<close>

theorem standardize_mutates_caller_array:
  assumes "lookup_stds self tv (shape_T (map (map Fin) a)) = Inr s"
  shows "fst (get_single_residuals solve self (map (map Fin) a) tv True rm)
         = map (map Fin) (map standardized_row a)"
  using assms
  by (simp add: get_single_residuals_def no_nan_Fin standardize_array_Fin Let_def
           del: map_map)

theorem standardize_mutates_caller_array_witness:
  "lookup_stds (init None (PStr homo_marker) 10 False 1) 0
      (shape_T (map (map Fin) [[1, 3], [2, 2]])) = Inr [Fin 1, Fin 1]
   \<and> fst (get_single_residuals one_regressor_solver (init None (PStr homo_marker) 10 False 1)
            [[Fin 1, Fin 3], [Fin 2, Fin 2]] 0 True False)
       = [[Fin (- 1), Fin 1], [Fin 0, Fin 0]]"
proof -
  let ?self = "init None (PStr homo_marker) 10 False 1"
  have h: "lookup_stds ?self 0 (shape_T (map (map Fin) [[1, 3], [2, 2]])) = Inr [Fin 1, Fin 1]"
    by (simp add: lookup_stds_def init_def shape_T_def ones_def numeral_2_eq_2)
  have r1: "standardized_row [1, 3] = [- 1, 1]"
    by (simp add: standardized_row_def std_real_def mean_real_def)
  have r2: "standardized_row [2, 2] = [0, 0]"
    by (simp add: standardized_row_def std_real_def mean_real_def)
  from standardize_mutates_caller_array[OF h, of one_regressor_solver False] h r1 r2
  show ?thesis by simp
qed

section \<open>Scaling the standard deviations\<close>

lemma fl_mul_pos_add:
  "0 < k \<Longrightarrow> fl_mul (Fin k) (fl_add x y) = fl_add (fl_mul (Fin k) x) (fl_mul (Fin k) y)"
  by (cases x; cases y) (simp_all add: inf_of_sign_def distrib_left)

lemma fl_sum_scale:
  "0 < k \<Longrightarrow> fl_sum (map (fl_mul (Fin k)) xs) = fl_mul (Fin k) (fl_sum xs)"
  by (induction xs) (simp_all add: fl_sum_Nil fl_sum_Cons fl_mul_pos_add)

lemma fl_mul_pos_assoc:
  "0 < k \<Longrightarrow> fl_mul (fl_mul (Fin k) w) z = fl_mul (Fin k) (fl_mul w z)"
  by (cases w; cases z)
     (simp_all add: inf_of_sign_def zero_less_mult_iff mult_less_0_iff not_less mult.assoc)

lemma fl_mul_pos_commute:
  "0 < k \<Longrightarrow> fl_mul y (fl_mul (Fin k) w) = fl_mul (Fin k) (fl_mul y w)"
  by (cases w; cases y)
     (simp_all add: inf_of_sign_def zero_less_mult_iff mult_less_0_iff not_less mult.left_commute)

lemma reciprocal_scale:
  "0 < c \<Longrightarrow> reciprocal (fl_mul (Fin c) s) = fl_mul (Fin (1 / c)) (reciprocal s)"
  by (cases s) (simp_all add: reciprocal_def inf_of_sign_def)

lemma isnan_scale: "0 < k \<Longrightarrow> isnan (fl_mul (Fin k) x) = isnan x"
  by (cases x) (simp_all add: inf_of_sign_def)

lemma isfinite_scale: "0 < k \<Longrightarrow> isfinite (fl_mul (Fin k) x) = isfinite x"
  by (cases x) (simp_all add: inf_of_sign_def)

lemma length_scale_vec: "length (scale_vec k v) = length v"
  by (simp add: scale_vec_def)

lemma dot_vv_scale_left:
  "0 < k \<Longrightarrow> dot_vv (scale_vec k x) y = fl_mul (Fin k) (dot_vv x y)"
proof -
  assume k: "0 < k"
  have "map (\<lambda>(a, b). fl_mul a b) (zip (map (fl_mul (Fin k)) x) y)
        = map (fl_mul (Fin k)) (map (\<lambda>(a, b). fl_mul a b) (zip x y))"
    by (simp add: zip_map1 comp_def case_prod_unfold fl_mul_pos_assoc[OF k])
  then show ?thesis
    unfolding dot_vv_def scale_vec_def by (simp only: fl_sum_scale[OF k])
qed

lemma dot_vv_scale_right:
  "0 < k \<Longrightarrow> dot_vv x (scale_vec k y) = fl_mul (Fin k) (dot_vv x y)"
proof -
  assume k: "0 < k"
  have "map (\<lambda>(a, b). fl_mul a b) (zip x (map (fl_mul (Fin k)) y))
        = map (fl_mul (Fin k)) (map (\<lambda>(a, b). fl_mul a b) (zip x y))"
    by (simp add: zip_map2 comp_def case_prod_unfold fl_mul_pos_commute[OF k])
  then show ?thesis
    unfolding dot_vv_def scale_vec_def by (simp only: fl_sum_scale[OF k])
qed

lemma shape_T_scale_mat: "shape_T (scale_mat k m) = shape_T m"
  by (cases m) (simp_all add: shape_T_def scale_mat_def scale_vec_def)

lemma column_scale_mat:
  assumes "rect m n" "j < n"
  shows "column (scale_mat k m) j = scale_vec k (column m j)"
  using assms
  by (simp add: column_def scale_mat_def scale_vec_def rect_def list_all_iff)

lemma dot_vm_scale_mat:
  assumes "0 < k" "rect m (shape_T m)"
  shows "dot_vm y (scale_mat k m) = scale_vec k (dot_vm y m)"
proof -
  have "dot_vv y (column (scale_mat k m) j) = fl_mul (Fin k) (dot_vv y (column m j))"
    if "j < shape_T m" for j
    by (simp only: column_scale_mat[OF assms(2) that] dot_vv_scale_right[OF assms(1)])
  then show ?thesis
    by (simp add: dot_vm_def shape_T_scale_mat scale_vec_def)
qed

lemma dot_vm_scale_vec:
  assumes "0 < k"
  shows "dot_vm (scale_vec k y) m = scale_vec k (dot_vm y m)"
proof -
  have "dot_vm (scale_vec k y) m
        = map (\<lambda>j. fl_mul (Fin k) (dot_vv y (column m j))) [0..<shape_T m]"
    unfolding dot_vm_def by (simp only: dot_vv_scale_left[OF assms])
  also have "\<dots> = scale_vec k (dot_vm y m)"
    unfolding scale_vec_def dot_vm_def by (simp only: map_map comp_def)
  finally show ?thesis .
qed

lemma dot_mm_scale_mat:
  assumes "0 < k"
  shows "dot_mm (scale_mat k w) z = scale_mat k (dot_mm w z)"
proof -
  have "dot_mm (scale_mat k w) z = map (\<lambda>row. dot_vm (scale_vec k row) z) w"
    unfolding dot_mm_def scale_mat_def by (simp only: map_map comp_def)
  also have "\<dots> = map (\<lambda>row. scale_vec k (dot_vm row z)) w"
    by (simp only: dot_vm_scale_vec[OF assms])
  also have "\<dots> = scale_mat k (dot_mm w z)"
    unfolding dot_mm_def scale_mat_def by (simp only: map_map comp_def)
  finally show ?thesis .
qed

lemma length_diag: "length (diag v) = length v"
  by (simp add: diag_def)

lemma rect_diag: "rect (diag v) (length v)"
  unfolding rect_def diag_def list_all_iff by simp

lemma shape_T_diag: "shape_T (diag v) = length v"
proof (cases "diag v")
  case Nil
  then have "length (diag v) = 0" by simp
  then have "length v = 0" by (simp only: length_diag)
  with Nil show ?thesis by (simp add: shape_T_def)
next
  case (Cons r rs)
  then have pos: "0 < length v"
    using length_diag[of v] by auto
  have "r = diag v ! 0" using Cons by simp
  also have "\<dots> = map (\<lambda>j. if 0 = j then v ! 0 else Fin 0) [0..<length v]"
    unfolding diag_def using pos by (simp del: upt_Suc)
  finally have "length r = length v" by simp
  with Cons show ?thesis by (simp add: shape_T_def)
qed

lemma weights_of_scale:
  assumes "0 < c"
  shows "weights_of (scale_vec c s) = scale_mat (1 / c) (weights_of s)"
proof -
  have c': "0 < 1 / c" using assms by simp
  have entry: "(if i = j then map reciprocal (map (fl_mul (Fin c)) s) ! i else Fin 0)
        = fl_mul (Fin (1 / c)) (if i = j then map reciprocal s ! i else Fin 0)"
    if "i < length s" for i j
    using that by (simp add: reciprocal_scale[OF assms])
  show ?thesis
    unfolding weights_of_def diag_def scale_vec_def scale_mat_def
    by (simp add: entry)
qed

lemma isnan_fl_sum_scale: "0 < k \<Longrightarrow> isnan (fl_sum (scale_vec k r)) = isnan (fl_sum r)"
  unfolding scale_vec_def by (simp only: fl_sum_scale isnan_scale)

lemma rect_weights_of: "rect (weights_of s) (shape_T (weights_of s))"
  unfolding weights_of_def shape_T_diag using rect_diag[of "map reciprocal s"] by simp

lemma weighted_fit_scale:
  assumes c: "0 < c" and inv: "scale_invariant solve"
  shows "weighted_fit solve (scale_vec c s) arr tv
         = map_sum id (\<lambda>(r, m). (scale_vec (1 / c) r, m)) (weighted_fit solve s arr tv)"
proof -
  define k where "k = 1 / c"
  have k: "0 < k" using c by (simp add: k_def)
  define W where "W = weights_of s"
  have W': "weights_of (scale_vec c s) = scale_mat k W"
    unfolding k_def W_def by (rule weights_of_scale[OF c])
  have rW: "rect W (shape_T W)" unfolding W_def by (rule rect_weights_of)
  have vm: "dot_vm y (scale_mat k W) = scale_vec k (dot_vm y W)" for y
    by (rule dot_vm_scale_mat[OF k rW])
  have mm: "dot_mm (scale_mat k W) z = scale_mat k (dot_mm W z)" for z
    by (rule dot_mm_scale_mat[OF k])
  have sv: "solve (scale_mat k a) (scale_vec k b) = solve a b" for a b
    using inv k unfolding scale_invariant_def by blast
  have nan: "isnan (fl_sum (scale_vec k r)) = isnan (fl_sum r)" for r
    by (rule isnan_fl_sum_scale[OF k])
  show ?thesis
  proof (cases "length arr \<le> tv")
    case True
    then show ?thesis by (simp add: weighted_fit_def)
  next
    case False
    note inb = this
    show ?thesis
    proof (cases "length s \<noteq> shape_T arr")
      case True
      then show ?thesis using inb by (simp add: weighted_fit_def length_scale_vec)
    next
      case False
      note al = this
      show ?thesis
      proof (cases "length arr > 2")
        case False
        then show ?thesis
          using inb al
          by (simp add: weighted_fit_def length_scale_vec W' vm W_def[symmetric] k_def[symmetric])
      next
        case True
        define z where "z = transpose_rows (shape_T arr) (drop 2 arr)"
        define y where "y = arr ! tv"
        show ?thesis
        proof (cases "solve (dot_mm W z) (dot_vm y W)")
          case (Inl e)
          then show ?thesis
            using inb al True
            by (simp add: weighted_fit_def length_scale_vec W' vm mm sv W_def[symmetric]
                  k_def[symmetric] z_def[symmetric] y_def[symmetric])
        next
          case (Inr beta)
          then show ?thesis
            using inb al True
            by (simp add: weighted_fit_def length_scale_vec W' vm mm sv nan W_def[symmetric]
                  k_def[symmetric] z_def[symmetric] y_def[symmetric] Let_def)
        qed
      qed
    qed
  qed
qed

lemma isfinite_iff: "isfinite x \<longleftrightarrow> (\<exists>a. x = Fin a)"
  by (cases x) simp_all

lemma isfinite_fl_add: "isfinite x \<Longrightarrow> isfinite y \<Longrightarrow> isfinite (fl_add x y)"
  by (cases x; cases y) simp_all

lemma isfinite_fl_mul: "isfinite x \<Longrightarrow> isfinite y \<Longrightarrow> isfinite (fl_mul x y)"
  by (cases x; cases y) simp_all

lemma isfinite_fl_sum: "list_all isfinite xs \<Longrightarrow> isfinite (fl_sum xs)"
  by (induction xs) (simp_all add: fl_sum_Nil fl_sum_Cons isfinite_fl_add)

lemma isfinite_dot_vv:
  assumes "list_all isfinite x" "list_all isfinite y"
  shows "isfinite (dot_vv x y)"
proof -
  have "list_all isfinite (map (\<lambda>(a, b). fl_mul a b) (zip x y))"
    using assms
    by (auto simp: list_all_iff intro!: isfinite_fl_mul dest: set_zip_leftD set_zip_rightD)
  then show ?thesis unfolding dot_vv_def by (rule isfinite_fl_sum)
qed

lemma list_all_isfinite_scale_vec:
  "0 < k \<Longrightarrow> list_all isfinite (scale_vec k r) = list_all isfinite r"
  by (simp add: scale_vec_def list_all_iff isfinite_scale)

lemma map_hd_scale_mat:
  assumes "list_all (\<lambda>r. length r = 1 \<and> list_all isfinite r) a"
  shows "map hd (scale_mat k a) = scale_vec k (map hd a)"
proof -
  have "hd (scale_vec k r) = fl_mul (Fin k) (hd r)" if "r \<in> set a" for r
  proof -
    have "r \<noteq> []" using assms that by (auto simp: list_all_iff)
    then show ?thesis by (simp add: scale_vec_def hd_map)
  qed
  then show ?thesis by (simp add: scale_mat_def scale_vec_def)
qed

lemma one_regressor_cond_scale:
  assumes "0 < k"
  shows "(list_all (\<lambda>r. length r = 1 \<and> list_all isfinite r) (scale_mat k a)
            \<and> list_all isfinite (scale_vec k b) \<and> length (scale_mat k a) = length (scale_vec k b))
         = (list_all (\<lambda>r. length r = 1 \<and> list_all isfinite r) a
            \<and> list_all isfinite b \<and> length a = length b)"
proof -
  have "list_all (\<lambda>r. length r = 1 \<and> list_all isfinite r) (scale_mat k a)
        = list_all (\<lambda>r. length r = 1 \<and> list_all isfinite r) a"
    by (simp add: scale_mat_def list_all_iff length_scale_vec
          list_all_isfinite_scale_vec[OF assms, unfolded list_all_iff])
  moreover have "length (scale_mat k a) = length a" by (simp add: scale_mat_def)
  ultimately show ?thesis
    by (simp only: list_all_isfinite_scale_vec[OF assms] length_scale_vec)
qed

lemma one_regressor_solver_fails:
  assumes "\<not> (list_all (\<lambda>r. length r = 1 \<and> list_all isfinite r) a \<and> list_all isfinite b
              \<and> length a = length b)"
  shows "one_regressor_solver a b = Inl LinAlgError"
  unfolding one_regressor_solver_def using assms by (rule if_not_P)

lemma one_regressor_solver_fits:
  assumes "list_all (\<lambda>r. length r = 1 \<and> list_all isfinite r) a \<and> list_all isfinite b
              \<and> length a = length b"
  shows "one_regressor_solver a b
         = Inr [if dot_vv (map hd a) (map hd a) = Fin 0 then Fin 0
                else fl_div (dot_vv (map hd a) b) (dot_vv (map hd a) (map hd a))]"
  unfolding one_regressor_solver_def Let_def using assms by (rule if_P)

lemma one_regressor_solver_scale_invariant: "scale_invariant one_regressor_solver"
  unfolding scale_invariant_def
proof (intro allI impI)
  fix k :: real and a b
  assume k: "0 < k"
  let ?c = "list_all (\<lambda>r. length r = 1 \<and> list_all isfinite r) a
            \<and> list_all isfinite b \<and> length a = length b"
  let ?c' = "list_all (\<lambda>r. length r = 1 \<and> list_all isfinite r) (scale_mat k a)
            \<and> list_all isfinite (scale_vec k b) \<and> length (scale_mat k a) = length (scale_vec k b)"
  have cc: "?c' = ?c" by (rule one_regressor_cond_scale[OF k])
  show "one_regressor_solver (scale_mat k a) (scale_vec k b) = one_regressor_solver a b"
  proof (cases ?c)
    case False
    then have "\<not> ?c'" using cc by blast
    then have "one_regressor_solver (scale_mat k a) (scale_vec k b) = Inl LinAlgError"
      by (rule one_regressor_solver_fails)
    moreover have "one_regressor_solver a b = Inl LinAlgError"
      using False by (rule one_regressor_solver_fails)
    ultimately show ?thesis by simp
  next
    case True
    then have a: "list_all (\<lambda>r. length r = 1 \<and> list_all isfinite r) a"
      and b: "list_all isfinite b" by simp_all
    from True have c': ?c' using cc by blast
    let ?z = "map hd a"
    have z: "list_all isfinite ?z"
    proof -
      have "isfinite (hd r)" if "r \<in> set a" for r
      proof -
        from a that have "length r = 1" and fin: "\<forall>x\<in>set r. isfinite x"
          by (auto simp: list_all_iff)
        then have "r \<noteq> []" by auto
        then have "hd r \<in> set r" by (rule hd_in_set)
        with fin show ?thesis by blast
      qed
      then show ?thesis by (simp add: list_all_iff)
    qed
    obtain q where q: "dot_vv ?z ?z = Fin q"
      using isfinite_dot_vv[OF z z] by (auto simp: isfinite_iff)
    obtain p where p: "dot_vv ?z b = Fin p"
      using isfinite_dot_vv[OF z b] by (auto simp: isfinite_iff)
    have zz: "dot_vv (scale_vec k ?z) (scale_vec k ?z) = Fin (k * (k * q))"
      by (simp add: dot_vv_scale_left[OF k] dot_vv_scale_right[OF k] q)
    have zb: "dot_vv (scale_vec k ?z) (scale_vec k b) = Fin (k * (k * p))"
      by (simp add: dot_vv_scale_left[OF k] dot_vv_scale_right[OF k] p)
    have lhs: "one_regressor_solver (scale_mat k a) (scale_vec k b)
          = Inr [if Fin (k * (k * q)) = Fin 0 then Fin 0
                 else fl_div (Fin (k * (k * p))) (Fin (k * (k * q)))]"
      unfolding one_regressor_solver_fits[OF c'] map_hd_scale_mat[OF a] zz zb ..
    have rhs: "one_regressor_solver a b
          = Inr [if Fin q = Fin 0 then Fin 0 else fl_div (Fin p) (Fin q)]"
      unfolding one_regressor_solver_fits[OF True] q p ..
    show ?thesis unfolding lhs rhs using k by simp
  qed
qed

text \<open>
  C8. In a call with \<open>standardize = False\<close>, multiplying every entry of the
  standard-deviation row of the target variable by a constant \<open>c > 0\<close> multiplies
  the returned residual vector by \<open>1 / c\<close>; the fitted mean is unchanged, and a call
  that raises still raises the same error. The solver is external and is taken to be
  scale invariant, as the exact least-squares solution is.
\<close>

theorem scaling_std_scales_residual:
  assumes "0 < c" and "scale_invariant solve"
    and "stds self = Some S" and "tv < length S"
  shows "snd (get_single_residuals solve
                (self\<lparr>stds := Some (S[tv := scale_vec c (S ! tv)])\<rparr>) arr tv False rm)
         = map_sum id (scale_residuals (1 / c))
             (snd (get_single_residuals solve self arr tv False rm))"
proof (cases "x_vals_has_nan arr")
  case True
  then show ?thesis by (simp add: get_single_residuals_def)
next
  case False
  have fit: "weighted_fit solve (scale_vec c (S ! tv)) arr tv
             = map_sum id (\<lambda>(r, m). (scale_vec (1 / c) r, m)) (weighted_fit solve (S ! tv) arr tv)"
    by (rule weighted_fit_scale[OF assms(1) assms(2)])
  show ?thesis
  proof (cases "weighted_fit solve (S ! tv) arr tv")
    case (Inl e)
    then show ?thesis
      using False assms(3) assms(4)
      by (simp add: get_single_residuals_def lookup_stds_def fit)
  next
    case (Inr p)
    obtain r m where p: "p = (r, m)" by (cases p)
    show ?thesis
      using False assms(3) assms(4) Inr p
      by (simp add: get_single_residuals_def lookup_stds_def fit)
  qed
qed

theorem scaling_std_scales_residual_witness:
  "(0 :: real) < 2 \<and> scale_invariant one_regressor_solver
   \<and> snd (get_single_residuals one_regressor_solver
            ((init None (PStr homo_marker) 10 False 2)
               \<lparr>stds := Some [[Fin 1, Fin 2], [Fin 1, Fin 2]]\<rparr>)
            [[Fin 1, Fin 1], [Fin 1, Fin 3], [Fin 1, Fin 2]] 1 False False)
       = Inr (Resid [Fin (- 1 / 4), Fin (1 / 4)])
   \<and> snd (get_single_residuals one_regressor_solver
            ((init None (PStr homo_marker) 10 False 2)
               \<lparr>stds := Some [[Fin 1, Fin 2], [Fin 2, Fin 4]]\<rparr>)
            [[Fin 1, Fin 1], [Fin 1, Fin 3], [Fin 1, Fin 2]] 1 False False)
       = Inr (Resid [Fin (- 1 / 8), Fin (1 / 8)])"
proof -
  let ?S = "[[Fin 1, Fin 2], [Fin 1, Fin 2]]"
  let ?self = "(init None (PStr homo_marker) 10 False 2)\<lparr>stds := Some ?S\<rparr>"
  let ?A = "[[Fin 1, Fin 1], [Fin 1, Fin 3], [Fin 1, Fin 2]]"
  have h1: "(0 :: real) < 2" by simp
  have h3: "stds ?self = Some ?S" by simp
  have h4: "1 < length ?S" by simp
  have upd: "?self\<lparr>stds := Some (?S[1 := scale_vec 2 (?S ! 1)])\<rparr>
             = (init None (PStr homo_marker) 10 False 2)
                 \<lparr>stds := Some [[Fin 1, Fin 2], [Fin 2, Fin 4]]\<rparr>"
    by (simp add: scale_vec_def)
  have base: "snd (get_single_residuals one_regressor_solver ?self ?A 1 False False)
              = Inr (Resid [Fin (- 1 / 4), Fin (1 / 4)])"
    by (simp add: eval_defs one_regressor_solver_def fl_sub_def upt_rec numeral_2_eq_2)
  from scaling_std_scales_residual[OF h1 one_regressor_solver_scale_invariant h3 h4,
         of ?A False]
  show ?thesis
    unfolding upd base
    by (simp add: one_regressor_solver_scale_invariant scale_vec_def)
qed

section \<open>The homoskedastic path\<close>

lemma finite_list_ex: "list_all isfinite y \<Longrightarrow> \<exists>ys. y = map Fin ys"
proof (induction y)
  case Nil
  then show ?case by simp
next
  case (Cons x xs)
  then obtain a where a: "x = Fin a" by (auto simp: isfinite_iff)
  from Cons obtain ys where "xs = map Fin ys" by auto
  with a have "x # xs = map Fin (a # ys)" by simp
  then show ?case by (rule exI)
qed

lemma dot_vv_Fin: "dot_vv (map Fin xs) (map Fin ys) = Fin (sum_list (map (\<lambda>(a, b). a * b) (zip xs ys)))"
proof -
  have "map (\<lambda>(a, b). fl_mul a b) (zip (map Fin xs) (map Fin ys))
        = map Fin (map (\<lambda>(a, b). a * b) (zip xs ys))"
    by (simp add: zip_map_map comp_def case_prod_unfold)
  then show ?thesis unfolding dot_vv_def by (simp only: fl_sum_Fin)
qed

lemma sum_list_indicator:
  assumes "j < T"
  shows "sum_list (map (\<lambda>i. f i * (if i = j then 1 else 0 :: real)) [0..<T]) = f j"
proof -
  have "sum_list (map (\<lambda>i. f i * (if i = j then 1 else 0)) [0..<T])
        = (\<Sum>i\<in>{0..<T}. f i * (if i = j then 1 else 0))"
    by (simp add: interv_sum_list_conv_sum_set_nat)
  also have "\<dots> = (\<Sum>i\<in>{0..<T}. if i = j then f i else 0)"
    by (rule sum.cong) auto
  also have "\<dots> = f j" using assms by (simp add: sum.delta)
  finally show ?thesis .
qed

lemma zip_with_range:
  assumes "length ys = T"
  shows "zip ys (map g [0..<T]) = map (\<lambda>i. (ys ! i, g i)) [0..<T]"
  using assms by (intro nth_equalityI) simp_all

lemma dot_vv_unit:
  assumes "list_all isfinite y" "length y = T" "j < T"
  shows "dot_vv y (map (\<lambda>i. if i = j then Fin 1 else Fin 0) [0..<T]) = y ! j"
proof -
  from assms(1) obtain ys where ys: "y = map Fin ys" using finite_list_ex by blast
  with assms(2) have len: "length ys = T" by simp
  have u: "map (\<lambda>i. if i = j then Fin 1 else Fin 0) [0..<T]
           = map Fin (map (\<lambda>i. if i = j then 1 else 0) [0..<T])"
    by (simp add: comp_def if_distrib)
  have "dot_vv y (map (\<lambda>i. if i = j then Fin 1 else Fin 0) [0..<T])
        = Fin (sum_list (map (\<lambda>(a, b). a * b) (zip ys (map (\<lambda>i. if i = j then 1 else 0) [0..<T]))))"
    unfolding ys u by (rule dot_vv_Fin)
  also have "\<dots> = Fin (sum_list (map (\<lambda>i. ys ! i * (if i = j then 1 else 0)) [0..<T]))"
    by (simp add: zip_with_range[OF len] comp_def)
  also have "\<dots> = Fin (ys ! j)" by (simp only: sum_list_indicator[OF assms(3)])
  also have "\<dots> = y ! j" using ys len assms(3) by simp
  finally show ?thesis .
qed

lemma fl_mul_commute: "fl_mul x y = fl_mul y x"
  by (cases x; cases y) (simp_all add: mult.commute)

lemma dot_vv_commute: "dot_vv x y = dot_vv y x"
proof -
  have "map (\<lambda>(a, b). fl_mul a b) (zip x y) = map (\<lambda>(a, b). fl_mul a b) (zip y x)"
    by (subst zip_commute) (simp add: case_prod_unfold fl_mul_commute)
  then show ?thesis by (simp only: dot_vv_def)
qed

lemma weights_of_ones:
  "weights_of (ones T)
   = map (\<lambda>i. map (\<lambda>j. if i = j then Fin 1 else Fin 0) [0..<T]) [0..<T]"
proof -
  have r: "map reciprocal (ones T) = ones T"
    by (simp add: ones_def reciprocal_def)
  have "map (\<lambda>j. if i = j then ones T ! i else Fin 0) [0..<T]
        = map (\<lambda>j. if i = j then Fin 1 else Fin 0) [0..<T]" if "i < T" for i
    using that by (simp add: ones_def)
  then show ?thesis
    unfolding weights_of_def r diag_def by (simp add: ones_def)
qed

lemma shape_T_weights_of_ones: "shape_T (weights_of (ones T)) = T"
  unfolding weights_of_def shape_T_diag by (simp add: ones_def)

lemma column_weights_of_ones:
  assumes "j < T"
  shows "column (weights_of (ones T)) j = map (\<lambda>i. if i = j then Fin 1 else Fin 0) [0..<T]"
  unfolding weights_of_ones column_def using assms by (simp add: comp_def)

lemma dot_vm_identity:
  assumes "list_all isfinite y" "length y = T"
  shows "dot_vm y (weights_of (ones T)) = y"
proof -
  have "dot_vv y (column (weights_of (ones T)) j) = y ! j" if "j < T" for j
    unfolding column_weights_of_ones[OF that] by (rule dot_vv_unit[OF assms that])
  then have "dot_vm y (weights_of (ones T)) = map (\<lambda>j. y ! j) [0..<T]"
    unfolding dot_vm_def shape_T_weights_of_ones by simp
  also have "\<dots> = y" using assms(2) map_nth[of y] by simp
  finally show ?thesis .
qed

lemma dot_vv_unit_left:
  assumes "list_all isfinite c" "length c = T" "i < T"
  shows "dot_vv (map (\<lambda>j. if i = j then Fin 1 else Fin 0) [0..<T]) c = c ! i"
proof -
  have e: "(\<lambda>j. if i = j then Fin 1 else Fin 0) = (\<lambda>j. if j = i then Fin 1 else Fin 0)"
    by (rule ext) auto
  show ?thesis
    unfolding e dot_vv_commute[of _ c] by (rule dot_vv_unit[OF assms])
qed

lemma dot_mm_identity:
  assumes fin: "list_all (list_all isfinite) z" and len: "length z = T"
    and rect: "rect z (shape_T z)"
  shows "dot_mm (weights_of (ones T)) z = z"
proof -
  let ?d = "shape_T z"
  have col: "list_all isfinite (column z k) \<and> length (column z k) = T" if "k < ?d" for k
  proof -
    have "isfinite (r ! k)" if "r \<in> set z" for r
    proof -
      from rect that have "length r = ?d" by (simp add: rect_def list_all_iff)
      with \<open>k < ?d\<close> have "r ! k \<in> set r" by simp
      with fin that show ?thesis by (auto simp: list_all_iff)
    qed
    then show ?thesis by (simp add: column_def list_all_iff len)
  qed
  have row: "dot_vm (map (\<lambda>j. if i = j then Fin 1 else Fin 0) [0..<T]) z = z ! i"
    if i: "i < T" for i
  proof -
    have "dot_vv (map (\<lambda>j. if i = j then Fin 1 else Fin 0) [0..<T]) (column z k) = z ! i ! k"
      if k: "k < ?d" for k
    proof -
      from col[OF k] have f: "list_all isfinite (column z k)" and l: "length (column z k) = T"
        by simp_all
      have "dot_vv (map (\<lambda>j. if i = j then Fin 1 else Fin 0) [0..<T]) (column z k)
            = column z k ! i"
        by (rule dot_vv_unit_left[OF f l i])
      also have "\<dots> = z ! i ! k" using i len by (simp add: column_def)
      finally show ?thesis .
    qed
    then have "dot_vm (map (\<lambda>j. if i = j then Fin 1 else Fin 0) [0..<T]) z
               = map (\<lambda>k. z ! i ! k) [0..<?d]"
      unfolding dot_vm_def by simp
    also have "\<dots> = z ! i"
    proof -
      from rect i len have "length (z ! i) = ?d" by (simp add: rect_nth)
      then show ?thesis by (metis map_nth)
    qed
    finally show ?thesis .
  qed
  have "dot_mm (weights_of (ones T)) z = map (\<lambda>i. z ! i) [0..<T]"
    unfolding dot_mm_def weights_of_ones using row by (simp add: comp_def)
  also have "\<dots> = z" using len map_nth[of z] by simp
  finally show ?thesis .
qed

lemma isfinite_fl_sub: "isfinite x \<Longrightarrow> isfinite y \<Longrightarrow> isfinite (fl_sub x y)"
  by (cases x; cases y) (simp_all add: fl_sub_def)

lemma isfinite_not_nan: "isfinite x \<Longrightarrow> \<not> isnan x"
  by (cases x) simp_all

lemma finite_transpose_rows:
  assumes "list_all (list_all isfinite) rows" "list_all (\<lambda>r. length r = T) rows"
  shows "list_all (list_all isfinite) (transpose_rows T rows)"
proof -
  have "isfinite (r ! t)" if "r \<in> set rows" "t < T" for r t
  proof -
    from assms(2) that have "r ! t \<in> set r" by (simp add: list_all_iff)
    with assms(1) that(1) show ?thesis by (auto simp: list_all_iff)
  qed
  then show ?thesis by (simp add: transpose_rows_def list_all_iff)
qed

lemma rect_transpose_rows: "rect (transpose_rows T rows) (shape_T (transpose_rows T rows))"
proof (cases "transpose_rows T rows")
  case Nil
  then show ?thesis by (simp add: rect_def)
next
  case (Cons r rs)
  have all: "rect (transpose_rows T rows) (length rows)"
    by (simp add: rect_def transpose_rows_def list_all_iff)
  have "transpose_rows T rows \<noteq> []" using Cons by simp
  with all have "shape_T (transpose_rows T rows) = length rows" by (rule rect_shape_T)
  with all show ?thesis by simp
qed

lemma finite_dot_mv:
  assumes "list_all (list_all isfinite) z" "list_all isfinite beta"
  shows "list_all isfinite (dot_mv z beta)"
  using assms by (simp add: dot_mv_def list_all_iff isfinite_dot_vv)

lemma finite_zip_sub:
  assumes "list_all isfinite y" "list_all isfinite m"
  shows "list_all isfinite (map (\<lambda>(a, b). fl_sub a b) (zip y m))"
  using assms
  by (auto simp: list_all_iff intro!: isfinite_fl_sub dest: set_zip_leftD set_zip_rightD)

lemma finite_array_no_nan:
  assumes "list_all (list_all isfinite) arr"
  shows "\<not> x_vals_has_nan arr"
proof -
  have "list_all isfinite (concat arr)" using assms by (auto simp: list_all_iff)
  then have "isfinite (np_sum arr)" unfolding np_sum_def by (rule isfinite_fl_sum)
  then show ?thesis unfolding x_vals_has_nan_def by (rule isfinite_not_nan)
qed

lemma weighted_fit_identity:
  assumes fin: "list_all (list_all isfinite) arr" and rect: "rect arr (shape_T arr)"
    and fs: "finite_solver solve"
  shows "map_sum id fst (weighted_fit solve (ones (shape_T arr)) arr tv)
         = ols_residual solve arr tv"
proof (cases "length arr \<le> tv")
  case True
  then show ?thesis by (simp add: weighted_fit_def ols_residual_def)
next
  case False
  define T where "T = shape_T arr"
  define y where "y = arr ! tv"
  from False have tv: "tv < length arr" by simp
  have yfin: "list_all isfinite y"
    using fin tv unfolding y_def by (simp add: list_all_length)
  have ylen: "length y = T"
    unfolding y_def T_def using rect tv by (rule rect_nth)
  have lo: "length (ones T) = T" by (simp add: ones_def)
  have yw: "dot_vm y (weights_of (ones T)) = y" by (rule dot_vm_identity[OF yfin ylen])
  show ?thesis
  proof (cases "length arr > 2")
    case False
    then show ?thesis
      using tv lo yw
      by (simp add: weighted_fit_def ols_residual_def T_def[symmetric] y_def[symmetric])
  next
    case True
    define z where "z = transpose_rows T (drop 2 arr)"
    have rows_fin: "list_all (list_all isfinite) (drop 2 arr)"
      using fin by (auto simp: list_all_iff dest: in_set_dropD)
    have rows_len: "list_all (\<lambda>r. length r = T) (drop 2 arr)"
      using rect unfolding rect_def T_def by (auto simp: list_all_iff dest: in_set_dropD)
    have zfin: "list_all (list_all isfinite) z"
      unfolding z_def by (rule finite_transpose_rows[OF rows_fin rows_len])
    have zlen: "length z = T" unfolding z_def by (rule length_transpose_rows)
    have zrect: "rect z (shape_T z)" unfolding z_def by (rule rect_transpose_rows)
    have zw: "dot_mm (weights_of (ones T)) z = z" by (rule dot_mm_identity[OF zfin zlen zrect])
    show ?thesis
    proof (cases "solve z y")
      case (Inl e)
      then show ?thesis
        using tv lo yw zw True
        by (simp add: weighted_fit_def ols_residual_def T_def[symmetric] y_def[symmetric]
              z_def[symmetric])
    next
      case (Inr beta)
      have bfin: "list_all isfinite beta"
        using fs zfin yfin Inr unfolding finite_solver_def by blast
      define mean where "mean = dot_mv z beta"
      define d where "d = map (\<lambda>(a, b). fl_sub a b) (zip y mean)"
      have mfin: "list_all isfinite mean"
        unfolding mean_def by (rule finite_dot_mv[OF zfin bfin])
      have mlen: "length mean = T" unfolding mean_def by (simp add: length_dot_mv zlen)
      have dfin: "list_all isfinite d" unfolding d_def by (rule finite_zip_sub[OF yfin mfin])
      have dlen: "length d = T" unfolding d_def by (simp add: ylen mlen)
      have dw: "dot_vm d (weights_of (ones T)) = d" by (rule dot_vm_identity[OF dfin dlen])
      have nn: "\<not> isnan (fl_sum d)"
        by (rule isfinite_not_nan[OF isfinite_fl_sum[OF dfin]])
      have wf: "weighted_fit solve (ones T) arr tv = Inr (d, Some mean)"
        using tv lo True
        by (simp add: weighted_fit_def T_def[symmetric] y_def[symmetric] z_def[symmetric]
              yw zw Inr mean_def[symmetric] d_def[symmetric] dw nn)
      have ols: "ols_residual solve arr tv = Inr d"
        using tv True
        by (simp add: ols_residual_def T_def[symmetric] y_def[symmetric] z_def[symmetric]
              Inr mean_def[symmetric] d_def[symmetric])
      show ?thesis unfolding T_def[symmetric] wf ols by simp
    qed
  qed
qed

lemma markers_differ: "homo_marker \<noteq> time_marker"
  by (simp add: homo_marker_def time_marker_def)

lemma get_stds_homoskedastic:
  assumes "gt_std_matrix self = None" "expert_knowledge self = PStr homo_marker"
    "X \<noteq> []" "Y \<noteq> []"
  shows "get_stds E self arr X Y Z
         = (self\<lparr>expert_knowledge := PDict [],
                  stds := Some (replicate 2 (ones (shape_T arr)))\<rparr>, Inr ())"
proof -
  obtain x xs where X: "X = x # xs" using assms(3) by (cases X) auto
  obtain y ys where Y: "Y = y # ys" using assms(4) by (cases Y) auto
  show ?thesis
    using assms(1,2)
    by (simp add: get_stds_def expand_expert_knowledge_def markers_differ any_item_is_tuple_def
          get_std_estimation_def std_for_variable_def X Y)
qed

lemma one_regressor_solver_finite: "finite_solver one_regressor_solver"
  unfolding finite_solver_def
proof (intro allI impI)
  fix a b beta
  assume h: "list_all (list_all isfinite) a \<and> list_all isfinite b
             \<and> one_regressor_solver a b = Inr beta"
  let ?c = "list_all (\<lambda>r. length r = 1 \<and> list_all isfinite r) a \<and> list_all isfinite b
            \<and> length a = length b"
  have c: ?c
  proof (rule ccontr)
    assume "\<not> ?c"
    then have "one_regressor_solver a b = Inl LinAlgError" by (rule one_regressor_solver_fails)
    with h show False by simp
  qed
  let ?z = "map hd a"
  have z: "list_all isfinite ?z"
  proof -
    have "isfinite (hd r)" if "r \<in> set a" for r
    proof -
      from c that have "length r = 1" and fin: "\<forall>x\<in>set r. isfinite x"
        by (auto simp: list_all_iff)
      then have "r \<noteq> []" by auto
      then have "hd r \<in> set r" by (rule hd_in_set)
      with fin show ?thesis by blast
    qed
    then show ?thesis by (simp add: list_all_iff)
  qed
  from c have b: "list_all isfinite b" by simp
  obtain q where q: "dot_vv ?z ?z = Fin q"
    using isfinite_dot_vv[OF z z] by (auto simp: isfinite_iff)
  obtain p where p: "dot_vv ?z b = Fin p"
    using isfinite_dot_vv[OF z b] by (auto simp: isfinite_iff)
  have "one_regressor_solver a b
        = Inr [if Fin q = Fin 0 then Fin 0 else fl_div (Fin p) (Fin q)]"
    unfolding one_regressor_solver_fits[OF c] q p ..
  with h have "beta = [if Fin q = Fin 0 then Fin 0 else fl_div (Fin p) (Fin q)]" by simp
  then show "list_all isfinite beta" by simp
qed

text \<open>
  C6, as stated, fails on an array that holds an infinity and no NaN. The registry is
  empty and the standard deviations are ones, but the product with the identity
  weights multiplies the infinite entry by the zeros off the diagonal: the weighted
  residual of the row \<open>[inf, 1]\<close> is \<open>[inf, nan]\<close>, the plain residual is the row.
\<close>

theorem homoskedastic_infinite_entry_counterexample:
  "list_all (list_all (\<lambda>x. \<not> isnan x)) [[PInf, Fin 1], [PInf, Fin 1]]
   \<and> get_stds (example_env [[PInf, Fin 1], [PInf, Fin 1]])
        (init None (PStr homo_marker) 10 False 1) [[PInf, Fin 1], [PInf, Fin 1]]
        [(0, 0)] [(0, 0)] []
      = ((init None (PDict []) 10 False 1)\<lparr>stds := Some [[Fin 1, Fin 1], [Fin 1, Fin 1]]\<rparr>,
         Inr ())
   \<and> snd (get_single_residuals one_regressor_solver
            ((init None (PDict []) 10 False 1)\<lparr>stds := Some [[Fin 1, Fin 1], [Fin 1, Fin 1]]\<rparr>)
            [[PInf, Fin 1], [PInf, Fin 1]] 0 False False)
       = Inr (Resid [PInf, NaN])
   \<and> ols_residual one_regressor_solver [[PInf, Fin 1], [PInf, Fin 1]] 0 = Inr [PInf, Fin 1]"
  by (simp add: stds_defs eval_defs ols_residual_def upt_rec numeral_2_eq_2)

text \<open>
  C6, amended. With expert knowledge \<open>homoskedasticity\<close> and no ground-truth table,
  the weight estimation leaves an empty registry and standard deviations that are all
  ones; for a rectangular array with finite entries only, and a solver whose
  coefficients on finite data are finite, the residual of the weighted residualizer is
  the ordinary least-squares residual of the target row on the conditioning rows, and
  a call that raises raises the error of the unweighted computation.
\<close>

theorem homoskedastic_residual_is_ols:
  assumes "gt_std_matrix self = None" and "expert_knowledge self = PStr homo_marker"
    and "X \<noteq> []" and "Y \<noteq> []"
    and "list_all (list_all isfinite) arr" and "rect arr (shape_T arr)"
    and "finite_solver solve" and "tv < 2"
  shows "expert_knowledge (fst (get_stds E self arr X Y Z)) = PDict []
         \<and> stds (fst (get_stds E self arr X Y Z)) = Some (replicate 2 (ones (shape_T arr)))
         \<and> snd (get_single_residuals solve (fst (get_stds E self arr X Y Z)) arr tv False False)
             = map_sum id Resid (ols_residual solve arr tv)"
proof -
  let ?self1 = "self\<lparr>expert_knowledge := PDict [],
                     stds := Some (replicate 2 (ones (shape_T arr)))\<rparr>"
  have g: "get_stds E self arr X Y Z = (?self1, Inr ())"
    by (rule get_stds_homoskedastic[OF assms(1-4)])
  have nn: "\<not> x_vals_has_nan arr" by (rule finite_array_no_nan[OF assms(5)])
  have lk: "lookup_stds ?self1 tv (shape_T arr) = Inr (ones (shape_T arr))"
    using assms(8) by (simp add: lookup_stds_def)
  have wf: "map_sum id fst (weighted_fit solve (ones (shape_T arr)) arr tv)
            = ols_residual solve arr tv"
    by (rule weighted_fit_identity[OF assms(5) assms(6) assms(7)])
  have "snd (get_single_residuals solve ?self1 arr tv False False)
        = map_sum id Resid (map_sum id fst (weighted_fit solve (ones (shape_T arr)) arr tv))"
    unfolding get_single_residuals_def using nn lk
    by (cases "weighted_fit solve (ones (shape_T arr)) arr tv") (auto simp: Let_def)
  then show ?thesis unfolding g wf by simp
qed

theorem homoskedastic_residual_is_ols_witness:
  "gt_std_matrix (init None (PStr homo_marker) 10 False 2) = None
   \<and> expert_knowledge (init None (PStr homo_marker) 10 False 2) = PStr homo_marker
   \<and> list_all (list_all isfinite) [[Fin 1, Fin 1], [Fin 1, Fin 3], [Fin 1, Fin 2]]
   \<and> rect [[Fin 1, Fin 1], [Fin 1, Fin 3], [Fin 1, Fin 2]]
        (shape_T [[Fin 1, Fin 1], [Fin 1, Fin 3], [Fin 1, Fin 2]])
   \<and> finite_solver one_regressor_solver
   \<and> stds (fst (get_stds (example_env [[Fin 1, Fin 1], [Fin 1, Fin 3], [Fin 1, Fin 2]])
                  (init None (PStr homo_marker) 10 False 2)
                  [[Fin 1, Fin 1], [Fin 1, Fin 3], [Fin 1, Fin 2]] [(0, 0)] [(1, 0)] [(1, - 1)]))
       = Some [[Fin 1, Fin 1], [Fin 1, Fin 1]]
   \<and> snd (get_single_residuals one_regressor_solver
            (fst (get_stds (example_env [[Fin 1, Fin 1], [Fin 1, Fin 3], [Fin 1, Fin 2]])
                  (init None (PStr homo_marker) 10 False 2)
                  [[Fin 1, Fin 1], [Fin 1, Fin 3], [Fin 1, Fin 2]] [(0, 0)] [(1, 0)] [(1, - 1)]))
            [[Fin 1, Fin 1], [Fin 1, Fin 3], [Fin 1, Fin 2]] 1 False False)
       = Inr (Resid [Fin (- 2 / 5), Fin (1 / 5)])"
proof -
  let ?A = "[[Fin 1, Fin 1], [Fin 1, Fin 3], [Fin 1, Fin 2]]"
  let ?self = "init None (PStr homo_marker) 10 False 2"
  have h1: "gt_std_matrix ?self = None" by (simp add: init_def)
  have h2: "expert_knowledge ?self = PStr homo_marker" by (simp add: init_def)
  have h3: "[(0 :: int, 0 :: int)] \<noteq> []" by simp
  have h4: "[(1 :: int, 0 :: int)] \<noteq> []" by simp
  have h5: "list_all (list_all isfinite) ?A" by simp
  have sT: "shape_T ?A = 2" by (simp add: shape_T_def)
  have h6: "rect ?A (shape_T ?A)" by (simp add: rect_def sT)
  have h8: "(1 :: nat) < 2" by simp
  have ols: "ols_residual one_regressor_solver ?A 1 = Inr [Fin (- 2 / 5), Fin (1 / 5)]"
    by (simp add: ols_residual_def one_regressor_solver_def eval_defs fl_sub_def upt_rec
          numeral_2_eq_2)
  have o: "replicate 2 (ones 2) = [[Fin 1, Fin 1], [Fin 1, Fin 1]]"
    by (simp add: ones_def numeral_2_eq_2)
  from homoskedastic_residual_is_ols[OF h1 h2 h3 h4 h5 h6 one_regressor_solver_finite h8,
         of "example_env ?A" "[(1, - 1)]"]
  show ?thesis
    unfolding sT ols o using h1 h2 h5 h6[unfolded sT] one_regressor_solver_finite by simp
qed

end
